theory Spec2Isabelle
  imports Complex_Main
begin

section \<open>Python values: strings, numbers, exceptions\<close>

text \<open>
  A Python \<^verbatim>\<open>str\<close> is a sequence of Unicode code points, so a string is a list of
  natural numbers. \<open>u\<close> turns an ASCII literal into such a list; words of the source that
  are not ASCII are given by their code points.
\<close>

type_synonym ustr = "nat list"

definition u :: "string \<Rightarrow> ustr" where
  "u s = map of_char s"

text \<open>
  \<^verbatim>\<open>\d\<close> and \<^verbatim>\<open>str.isdigit\<close>: the ASCII digits. (Python also accepts the decimal digits
  of other scripts; texts that contain them are not covered by this development.)
\<close>

definition is_digit :: "nat \<Rightarrow> bool" where
  "is_digit c = (48 \<le> c \<and> c \<le> 57)"

text \<open>\<^verbatim>\<open>\s\<close>, \<^verbatim>\<open>str.strip\<close>: the code points for which \<^verbatim>\<open>str.isspace\<close> holds.\<close>

definition is_space :: "nat \<Rightarrow> bool" where
  "is_space c = ((9 \<le> c \<and> c \<le> 13) \<or> (28 \<le> c \<and> c \<le> 32) \<or> c = 133 \<or> c = 160
     \<or> c = 5760 \<or> (8192 \<le> c \<and> c \<le> 8202) \<or> c = 8232 \<or> c = 8233 \<or> c = 8239
     \<or> c = 8287 \<or> c = 12288)"

definition strip :: "ustr \<Rightarrow> ustr" where
  "strip s = rev (dropWhile is_space (rev (dropWhile is_space s)))"

text \<open>
  \<^verbatim>\<open>str.lower\<close> on the Latin and Cyrillic capitals (the alphabets of the pages read);
  every other code point is left as it is.
\<close>

definition lower_cp :: "nat \<Rightarrow> nat" where
  "lower_cp c =
     (if 65 \<le> c \<and> c \<le> 90 then c + 32
      else if 192 \<le> c \<and> c \<le> 222 \<and> c \<noteq> 215 then c + 32
      else if 1040 \<le> c \<and> c \<le> 1071 then c + 32
      else if 1024 \<le> c \<and> c \<le> 1039 then c + 80
      else c)"

definition lower :: "ustr \<Rightarrow> ustr" where
  "lower s = map lower_cp s"

definition startswith :: "ustr \<Rightarrow> ustr \<Rightarrow> bool" where
  "startswith s p = (take (length p) s = p)"

text \<open>\<^verbatim>\<open>p in s\<close> for strings.\<close>

fun contains :: "ustr \<Rightarrow> ustr \<Rightarrow> bool" where
  "contains p [] = (p = [])"
| "contains p (c # cs) = (startswith (c # cs) p \<or> contains p cs)"

text \<open>
  \<^verbatim>\<open>s.replace(old, new)\<close>: every occurrence of \<open>old\<close>, left to right without overlap.
  The source calls it with a non-empty \<open>old\<close> only; with an empty one the model returns
  \<open>s\<close>.
\<close>

function replace :: "ustr \<Rightarrow> ustr \<Rightarrow> ustr \<Rightarrow> ustr" where
  "replace old new s =
     (if s = [] \<or> old = [] then s
      else if startswith s old then new @ replace old new (drop (length old) s)
      else hd s # replace old new (tl s))"
  by pat_completeness auto
termination
  by (relation "measure (\<lambda>(old, new, s). length s)") auto

declare replace.simps [simp del]

datatype exn = ValueError | TypeError | AttributeError | OverflowError | ZeroDivisionError
  | BrowserError nat

text \<open>
  A Python \<^verbatim>\<open>float\<close> is an IEEE 754 double. A finite value is modelled by the real number
  it stands for (the two zeros are one value), and every operation that produces a float
  rounds its exact result with \<open>to_double\<close>.
\<close>

datatype pyfloat = Fin real | PInf | NInf | NaN

text \<open>The number of binary digits of a positive integer, \<^verbatim>\<open>int.bit_length\<close>.\<close>

function bit_length :: "int \<Rightarrow> int" where
  "bit_length x = (if 0 < x then bit_length (x div 2) + 1 else 0)"
  by pat_completeness auto
termination
  by (relation "measure nat") auto

declare bit_length.simps [simp del]

definition pow2 :: "int \<Rightarrow> real" where
  "pow2 k = (if 0 \<le> k then 2 ^ nat k else 1 / 2 ^ nat (- k))"

text \<open>The integer nearest to a real number, the even one of the two when it is half way.\<close>

definition round_half_even :: "real \<Rightarrow> int" where
  "round_half_even m =
     (let f = \<lfloor>m\<rfloor>; d = m - real_of_int f
      in if d < 1 / 2 then f else if 1 / 2 < d then f + 1 else if even f then f else f + 1)"

text \<open>The exponent \<open>e\<close> of a positive real \<open>a\<close>: \<open>2 ^ e \<le> a < 2 ^ (e + 1)\<close>.\<close>

definition binary_exponent :: "real \<Rightarrow> int" where
  "binary_exponent a =
     (if 1 \<le> a then bit_length \<lfloor>a\<rfloor> - 1 else - bit_length (\<lceil>1 / a\<rceil> - 1))"

text \<open>
  Rounding to the nearest double, ties to even: 53 significant bits, the exponent of the
  last bit not below \<open>- 1074\<close> (subnormal numbers), and an infinity when the rounded value
  reaches \<open>2 ^ 1024\<close>.
\<close>

definition to_double :: "real \<Rightarrow> pyfloat" where
  "to_double x =
     (if x = 0 then Fin 0
      else (let a = \<bar>x\<bar>;
                q = pow2 (max (binary_exponent a) (- 1022) - 52);
                y = real_of_int (round_half_even (a / q)) * q
            in if 2 ^ 1024 \<le> y then (if x < 0 then NInf else PInf)
               else Fin (if x < 0 then - y else y)))"


definition digits_val :: "ustr \<Rightarrow> nat" where
  "digits_val ds = foldl (\<lambda>a d. 10 * a + (d - 48)) 0 ds"

text \<open>
  A \<^verbatim>\<open>digitpart\<close> of Python's number syntax: digits, with single underscores allowed
  between two digits.
\<close>

fun no_double_underscore :: "ustr \<Rightarrow> bool" where
  "no_double_underscore (a # b # cs) = (\<not> (a = 95 \<and> b = 95) \<and> no_double_underscore (b # cs))"
| "no_double_underscore _ = True"

definition digitpart_ok :: "ustr \<Rightarrow> bool" where
  "digitpart_ok x = (x \<noteq> [] \<and> list_all (\<lambda>c. is_digit c \<or> c = 95) x \<and> is_digit (hd x)
     \<and> is_digit (last x) \<and> no_double_underscore x)"

definition digitpart_val :: "ustr \<Rightarrow> nat" where
  "digitpart_val x = digits_val (filter is_digit x)"

text \<open>\<^verbatim>\<open>int(s)\<close> for a string, base 10.\<close>

definition py_int_str :: "ustr \<Rightarrow> exn + int" where
  "py_int_str s =
     (let t = strip s;
          neg = (t \<noteq> [] \<and> hd t = 45);
          r = (if t \<noteq> [] \<and> (hd t = 45 \<or> hd t = 43) then tl t else t)
      in if digitpart_ok r
         then Inr (if neg then - int (digitpart_val r) else int (digitpart_val r))
         else Inl ValueError)"

text \<open>
  The unsigned \<^verbatim>\<open>floatnumber\<close> of \<^verbatim>\<open>float(s)\<close>:
  \<^verbatim>\<open>([digitpart] "." digitpart | digitpart ["."]) [("e"|"E") ["+"|"-"] digitpart]\<close>.
\<close>

definition parse_exponent :: "ustr \<Rightarrow> int option" where
  "parse_exponent r =
     (if r = [] then Some 0
      else if hd r = 101 \<or> hd r = 69
      then (let r1 = tl r;
                neg = (r1 \<noteq> [] \<and> hd r1 = 45);
                r2 = (if r1 \<noteq> [] \<and> (hd r1 = 45 \<or> hd r1 = 43) then tl r1 else r1)
            in if digitpart_ok r2
               then Some (if neg then - int (digitpart_val r2) else int (digitpart_val r2))
               else None)
      else None)"

definition parse_floatnumber :: "ustr \<Rightarrow> real option" where
  "parse_floatnumber r =
     (let a = takeWhile (\<lambda>c. is_digit c \<or> c = 95) r;
          r1 = dropWhile (\<lambda>c. is_digit c \<or> c = 95) r;
          dot = (r1 \<noteq> [] \<and> hd r1 = 46);
          b = (if dot then takeWhile (\<lambda>c. is_digit c \<or> c = 95) (tl r1) else []);
          r2 = (if dot then dropWhile (\<lambda>c. is_digit c \<or> c = 95) (tl r1) else r1)
      in if (a = [] \<and> dot \<and> digitpart_ok b) \<or> (digitpart_ok a \<and> (b = [] \<or> digitpart_ok b))
         then (case parse_exponent r2 of
                 None \<Rightarrow> None
               | Some e \<Rightarrow>
                   (let m = real (digitpart_val a)
                          + real (digitpart_val b) / 10 ^ length (filter is_digit b)
                    in Some (if 0 \<le> e then m * 10 ^ nat e else m / 10 ^ nat (- e))))
         else None)"

text \<open>
  \<^verbatim>\<open>float(s)\<close> for a string: the double nearest to the number written, an infinity when
  it is beyond the range of the doubles.
\<close>

definition py_float_str :: "ustr \<Rightarrow> exn + pyfloat" where
  "py_float_str s =
     (let t = strip s;
          neg = (t \<noteq> [] \<and> hd t = 45);
          r = (if t \<noteq> [] \<and> (hd t = 45 \<or> hd t = 43) then tl t else t);
          l = lower r
      in if l = u ''inf'' \<or> l = u ''infinity'' then Inr (if neg then NInf else PInf)
         else if l = u ''nan'' then Inr NaN
         else (case parse_floatnumber r of
                 None \<Rightarrow> Inl ValueError
               | Some x \<Rightarrow> Inr (to_double (if neg then - x else x))))"

text \<open>
  \<^verbatim>\<open>float(v)\<close>, which raises \<^verbatim>\<open>OverflowError\<close> for an int beyond the range of the doubles,
  and \<^verbatim>\<open>int(x)\<close> for a float \<open>x\<close> (truncation toward zero).
\<close>

definition float_of_int :: "int \<Rightarrow> exn + real" where
  "float_of_int i = (case to_double (real_of_int i) of Fin y \<Rightarrow> Inr y | _ \<Rightarrow> Inl OverflowError)"


fun py_int_of_float :: "pyfloat \<Rightarrow> exn + int" where
  "py_int_of_float (Fin x) = Inr (if 0 \<le> x then \<lfloor>x\<rfloor> else \<lceil>x\<rceil>)"
| "py_int_of_float PInf = Inl OverflowError"
| "py_int_of_float NInf = Inl OverflowError"
| "py_int_of_float NaN = Inl ValueError"

text \<open>\<^verbatim>\<open>x == 0\<close> and \<^verbatim>\<open>x > 0\<close> on floats.\<close>

fun fl_is_zero :: "pyfloat \<Rightarrow> bool" where
  "fl_is_zero (Fin x) = (x = 0)"
| "fl_is_zero _ = False"

fun fl_pos :: "pyfloat \<Rightarrow> bool" where
  "fl_pos (Fin x) = (0 < x)"
| "fl_pos PInf = True"
| "fl_pos _ = False"

text \<open>
  \<^verbatim>\<open>p / a\<close> for an int \<open>p\<close> and a float \<open>a\<close>: the int is converted to a float and the
  quotient of the two floats is rounded.
\<close>

fun float_div :: "real \<Rightarrow> pyfloat \<Rightarrow> exn + pyfloat" where
  "float_div c (Fin a) = (if a = 0 then Inl ZeroDivisionError else Inr (to_double (c / a)))"
| "float_div c PInf = Inr (Fin 0)"
| "float_div c NInf = Inr (Fin 0)"
| "float_div c NaN = Inr NaN"

definition py_div :: "int \<Rightarrow> pyfloat \<Rightarrow> exn + pyfloat" where
  "py_div p a =
     (case float_of_int p of Inl e \<Rightarrow> Inl e | Inr c \<Rightarrow> float_div c a)"

section \<open>Regular expressions\<close>

text \<open>
  The patterns of the source are sequences of literal characters, repetitions of one
  character class (greedy or lazy, with bounds), groups that do not nest, and \<^verbatim>\<open>$\<close>.
  A pattern is the list of its items; \<open>Mark\<close> stands for either parenthesis of a group.
  \<open>rx\<close> is the backtracking matcher of \<^verbatim>\<open>re\<close> on this fragment: a greedy repetition
  first tries to take one more character and gives it back when the rest of the pattern
  fails, a lazy one first tries the rest of the pattern. The captures are the groups
  closed so far and the text of the open group; the result is the list of groups and
  the text left after the match.
\<close>

datatype item = Lit nat | Rep "nat \<Rightarrow> bool" nat "nat option" bool | Mark | Eos

type_synonym caps = "ustr list \<times> ustr option"

fun push :: "nat \<Rightarrow> caps \<Rightarrow> caps" where
  "push c (gs, None) = (gs, None)"
| "push c (gs, Some a) = (gs, Some (a @ [c]))"

fun mark :: "caps \<Rightarrow> caps" where
  "mark (gs, None) = (gs, Some [])"
| "mark (gs, Some a) = (gs @ [a], None)"

fun dec :: "nat option \<Rightarrow> nat option" where
  "dec None = None"
| "dec (Some h) = Some (h - 1)"

function rx :: "item list \<Rightarrow> ustr \<Rightarrow> caps \<Rightarrow> (ustr list \<times> ustr) option" where
  "rx [] s k = Some (fst k, s)"
| "rx (Lit c # r) [] k = None"
| "rx (Lit c # r) (x # xs) k = (if x = c then rx r xs (push x k) else None)"
| "rx (Mark # r) s k = rx r s (mark k)"
| "rx (Eos # r) s k = (if s = [] \<or> s = [10] then rx r s k else None)"
| "rx (Rep cls lo hi g # r) [] k = (if lo = 0 then rx r [] k else None)"
| "rx (Rep cls lo hi True # r) (x # xs) k =
     (case (if cls x \<and> hi \<noteq> Some 0
            then rx (Rep cls (lo - 1) (dec hi) True # r) xs (push x k) else None) of
        Some y \<Rightarrow> Some y
      | None \<Rightarrow> if lo = 0 then rx r (x # xs) k else None)"
| "rx (Rep cls lo hi False # r) (x # xs) k =
     (case (if lo = 0 then rx r (x # xs) k else None) of
        Some y \<Rightarrow> Some y
      | None \<Rightarrow> if cls x \<and> hi \<noteq> Some 0
                then rx (Rep cls (lo - 1) (dec hi) False # r) xs (push x k) else None)"
  by pat_completeness auto
termination
  by (relation "measure (\<lambda>(its, s, k). length its + length s)") auto

text \<open>A literal string, and the usual quantifiers on a class.\<close>

definition lit :: "ustr \<Rightarrow> item list" where
  "lit s = map Lit s"

abbreviation star :: "(nat \<Rightarrow> bool) \<Rightarrow> item" where
  "star cls \<equiv> Rep cls 0 None True"

abbreviation plus :: "(nat \<Rightarrow> bool) \<Rightarrow> item" where
  "plus cls \<equiv> Rep cls 1 None True"

abbreviation opt :: "(nat \<Rightarrow> bool) \<Rightarrow> item" where
  "opt cls \<equiv> Rep cls 0 (Some 1) True"

abbreviation star_lazy :: "(nat \<Rightarrow> bool) \<Rightarrow> item" where
  "star_lazy cls \<equiv> Rep cls 0 None False"

text \<open>
  \<^verbatim>\<open>re.search\<close>: the leftmost start at which the pattern matches. \<open>search\<close> returns the
  text before the match, the groups and the text after the match.
\<close>

fun search :: "item list \<Rightarrow> ustr \<Rightarrow> ustr \<Rightarrow> (ustr \<times> ustr list \<times> ustr) option" where
  "search its pre [] =
     (case rx its [] ([], None) of Some (gs, rest) \<Rightarrow> Some (pre, gs, rest) | None \<Rightarrow> None)"
| "search its pre (c # cs) =
     (case rx its (c # cs) ([], None) of
        Some (gs, rest) \<Rightarrow> Some (pre, gs, rest)
      | None \<Rightarrow> search its (pre @ [c]) cs)"

definition re_search :: "item list \<Rightarrow> ustr \<Rightarrow> ustr list option" where
  "re_search its t =
     (case search its [] t of None \<Rightarrow> None | Some (pre, gs, rest) \<Rightarrow> Some gs)"

text \<open>
  \<^verbatim>\<open>re.findall\<close>: the groups of the successive matches, each search starting where the
  match before it ended. (No pattern of the source matches the empty string, and the
  model is meant for such patterns.)
\<close>

function findall :: "item list \<Rightarrow> ustr \<Rightarrow> ustr list list" where
  "findall its t =
     (case search its [] t of
        None \<Rightarrow> []
      | Some (pre, gs, rest) \<Rightarrow>
          gs # (if length rest < length t then findall its rest
                else if t = [] then [] else findall its (tl t)))"
  by pat_completeness auto
termination
  by (relation "measure (\<lambda>(its, t). length t)") auto

declare findall.simps [simp del]

text \<open>\<^verbatim>\<open>re.sub(pattern, '', t)\<close>: the text with every match cut out.\<close>

function re_sub_empty :: "item list \<Rightarrow> ustr \<Rightarrow> ustr" where
  "re_sub_empty its t =
     (case search its [] t of
        None \<Rightarrow> t
      | Some (pre, gs, rest) \<Rightarrow>
          (if length rest < length t then pre @ re_sub_empty its rest
           else if t = [] then [] else hd t # re_sub_empty its (tl t)))"
  by pat_completeness auto
termination
  by (relation "measure (\<lambda>(its, t). length t)") auto

declare re_sub_empty.simps [simp del]

section \<open>Models\<close>

text \<open>
  \<^verbatim>\<open>class Flat(BaseModel)\<close> and \<^verbatim>\<open>class JK(BaseModel)\<close>. The fields \<^verbatim>\<open>id\<close> and \<^verbatim>\<open>floor\<close> of
  \<^verbatim>\<open>Flat\<close> are \<open>flat_id\<close> and \<open>flat_floor\<close> here, and the fields of \<^verbatim>\<open>JK\<close> carry the
  prefix \<open>jk_\<close>.
\<close>

record flat =
  flat_id :: ustr
  url :: ustr
  rooms :: int
  area :: pyfloat
  flat_floor :: int
  floors_total :: int
  price :: int
  address :: "ustr option"
  year_built :: "int option"
  house_status :: "ustr option"
  images :: "ustr list"

record jk =
  jk_id :: ustr
  jk_name :: ustr
  jk_url :: ustr
  jk_status :: "ustr option"
  jk_address :: "ustr option"
  jk_developer :: "ustr option"
  jk_price_min :: "int option"
  jk_price_max :: "int option"
  jk_price_per_m2_min :: "int option"
  jk_price_per_m2_max :: "int option"
  jk_building_class :: "ustr option"
  jk_floors :: "ustr option"
  jk_buildings_count :: "int option"
  jk_building_type :: "ustr option"
  jk_ceiling_height :: "pyfloat option"
  jk_finishing :: "ustr option"
  jk_parking :: "ustr option"
  jk_year_built :: "int option"

text \<open>
  The computed field \<^verbatim>\<open>price_per_m2\<close>:
  \<^verbatim>\<open>int(self.price / self.area) if self.area > 0 else 0\<close>.
\<close>

definition price_per_m2 :: "flat \<Rightarrow> exn + int" where
  "price_per_m2 f =
     (if fl_pos (area f)
      then (case py_div (price f) (area f) of Inl e \<Rightarrow> Inl e | Inr q \<Rightarrow> py_int_of_float q)
      else Inr 0)"

section \<open>Helpers\<close>

text \<open>Truth value of an optional string: \<^verbatim>\<open>None\<close> and \<^verbatim>\<open>""\<close> are false.\<close>

fun truthy :: "ustr option \<Rightarrow> bool" where
  "truthy None = False"
| "truthy (Some s) = (s \<noteq> [])"

text \<open>An optional string inside an f-string: \<^verbatim>\<open>None\<close> prints as \<^verbatim>\<open>None\<close>.\<close>

fun fmt :: "ustr option \<Rightarrow> ustr" where
  "fmt None = u ''None''"
| "fmt (Some s) = s"


definition decode_url :: "ustr \<Rightarrow> ustr" where
  "decode_url s = replace (92 # u ''u002F'') (u ''/'') s"

definition studio :: ustr where
  "studio = [1089, 1090, 1091, 1076, 1080, 1103]"

definition parse_rooms :: "ustr \<Rightarrow> exn + int" where
  "parse_rooms text =
     (if contains studio (lower text) then Inr 0
      else (case re_search [Mark, plus is_digit, Mark] text of
              Some (g # gs) \<Rightarrow> py_int_str g
            | _ \<Rightarrow> Inr 0))"

definition parse_area :: "ustr \<Rightarrow> exn + pyfloat" where
  "parse_area text =
     (case re_search [Mark, plus (\<lambda>c. is_digit c \<or> c = 44), Mark] text of
        Some (g # gs) \<Rightarrow> py_float_str (replace (u '','') (u ''.'') g)
      | _ \<Rightarrow> Inr (Fin 0))"

text \<open>The pattern \<^verbatim>\<open>\s*\([^)]+\)\s*$\<close>.\<close>

definition paren_pat :: "item list" where
  "paren_pat = [star is_space, Lit 40, plus (\<lambda>c. c \<noteq> 41), Lit 41, star is_space, Eos]"

definition parse_building_from_house_name :: "ustr \<Rightarrow> ustr option" where
  "parse_building_from_house_name house_name =
     (if house_name = [] \<or> 44 \<notin> set house_name then None
      else (let building_part = strip (tl (dropWhile (\<lambda>c. c \<noteq> 44) house_name));
                building = strip (re_sub_empty paren_pat building_part)
            in if building = [] then None else Some building))"

definition normalize_status :: "ustr option \<Rightarrow> ustr option" where
  "normalize_status status =
     (case status of
        None \<Rightarrow> None
      | Some s \<Rightarrow>
          if s = [] then None
          else (let status_lower = strip (lower s)
                in if contains [1089, 1076, 1072, 1085] status_lower
                   then Some [1057, 1076, 1072, 1085]
                   else if contains [1089, 1090, 1088, 1086, 1080, 1090] status_lower
                   then Some [1057, 1090, 1088, 1086, 1080, 1090, 1089, 1103]
                   else Some s))"



section \<open>The browser\<close>

text \<open>
  The parser drives a Playwright page. The page and the site behind it are a state
  \<open>'w\<close> about which nothing is assumed; the calls the parser makes are the fields of
  \<open>browser\<close>. A call that navigates returns the exception it raised, if any, and the
  next state; a call that reads returns an exception or a value. An element handle is
  the record of the answers to the queries the parser puts to it.
\<close>

record card =
  link_flat :: "exn + (exn + ustr option) option"
  link_sale :: "exn + (exn + ustr option) option"
  link_area :: "exn + (exn + ustr) option"
  card_text :: "exn + ustr"
  main_price :: "exn + (exn + ustr) option"
  address_item :: "exn + (exn + ustr) option"

text \<open>
  \<^descr> \<open>link_flat\<close>, \<open>link_sale\<close>: \<^verbatim>\<open>card.query_selector('a[href*="/flat/"]')\<close> and
    \<^verbatim>\<open>card.query_selector('a[href*="sale/flat"]')\<close>: no element, or the element with the
    answer of its \<^verbatim>\<open>get_attribute("href")\<close>;
  \<^descr> \<open>link_area\<close>, \<open>main_price\<close>, \<open>address_item\<close>: \<^verbatim>\<open>card.query_selector\<close> of
    \<^verbatim>\<open>[data-name="LinkArea"]\<close>, \<^verbatim>\<open>[data-mark="MainPrice"]\<close> and \<^verbatim>\<open>[data-name="AddressItem"]\<close>:
    no element, or the element with the answer of its \<^verbatim>\<open>inner_text()\<close>;
  \<^descr> \<open>card_text\<close>: \<^verbatim>\<open>card.inner_text()\<close>.
\<close>

record 'w browser =
  goto :: "ustr \<Rightarrow> 'w \<Rightarrow> exn option \<times> 'w"
  wait_for_load_state :: "'w \<Rightarrow> exn option \<times> 'w"
  content :: "'w \<Rightarrow> exn + ustr"
  query_link_areas :: "'w \<Rightarrow> exn + card list"
  query_card_components :: "'w \<Rightarrow> exn + card list"
  query_next :: "'w \<Rightarrow> exn + (exn + bool) option"
  click_next :: "'w \<Rightarrow> exn option \<times> 'w"

text \<open>
  \<^descr> \<open>query_link_areas\<close>, \<open>query_card_components\<close>: \<^verbatim>\<open>page.query_selector_all\<close> of
    \<^verbatim>\<open>[data-name="LinkArea"]\<close> and of \<^verbatim>\<open>article[data-name="CardComponent"]\<close>;
  \<^descr> \<open>query_next\<close>: \<^verbatim>\<open>page.query_selector\<close> of the pagination control: no element, or the
    element with the answer of its \<^verbatim>\<open>is_visible()\<close>; \<open>click_next\<close> is its \<^verbatim>\<open>click()\<close>.
\<close>

text \<open>The lines the parser writes to its log, and the state of a run.\<close>

datatype event =
    LogParsingFlats
  | LogLayouts nat
  | LogNoOffers
  | LogPage nat
  | LogValidIds nat
  | LogCards nat
  | LogDetail nat
  | LogEnriched nat nat ustr "ustr option"
  | LogEnrichError nat nat ustr exn
  | LogTotal nat

record 'w state =
  world :: 'w
  logged :: "event list"

definition say :: "event \<Rightarrow> 'w state \<Rightarrow> 'w state" where
  "say e s = s\<lparr>logged := logged s @ [e]\<rparr>"

section \<open>The parser\<close>

subsection \<open>Layouts\<close>

text \<open>
  The pattern of \<^verbatim>\<open>_extract_flats_from_layouts\<close>:
  \<^verbatim>\<open>\{"roomCount":"([^"]+)","offerUrl":"([^"]+)","houseName":"([^"]+)",\<close>
  \<^verbatim>\<open>"finishDate":"([^"]+)","totalArea":"([^"]+)","priceDisplay":"[^"]+",\<close>
  \<^verbatim>\<open>"price":(\d+),[^}]*"offerId":(\d+),"layoutImageUrl":"([^"]+)"\}\<close>.
\<close>

abbreviation nq :: "nat \<Rightarrow> bool" where
  "nq \<equiv> (\<lambda>c. c \<noteq> 34)"

definition layouts_pat :: "item list" where
  \<open>layouts_pat =
     lit (u ''{"roomCount":"'') @ [Mark, plus nq, Mark]
     @ lit (u ''","offerUrl":"'') @ [Mark, plus nq, Mark]
     @ lit (u ''","houseName":"'') @ [Mark, plus nq, Mark]
     @ lit (u ''","finishDate":"'') @ [Mark, plus nq, Mark]
     @ lit (u ''","totalArea":"'') @ [Mark, plus nq, Mark]
     @ lit (u ''","priceDisplay":"'') @ [plus nq]
     @ lit (u ''","price":'') @ [Mark, plus is_digit, Mark, Lit 44, star (\<lambda>c. c \<noteq> 125)]
     @ lit (u ''"offerId":'') @ [Mark, plus is_digit, Mark]
     @ lit (u '',"layoutImageUrl":"'') @ [Mark, plus nq, Mark]
     @ lit (u ''"}'')\<close>

text \<open>The body of the loop of \<^verbatim>\<open>_extract_flats_from_layouts\<close>, for one match.\<close>

definition layout_flat :: "jk \<Rightarrow> ustr list \<Rightarrow> exn + flat" where
  "layout_flat j m =
     (case m of
        [room_count, url_s, house_name, finish_date, area_str, price_s, offer_id, image_url] \<Rightarrow>
          (let addr = (case parse_building_from_house_name house_name of
                         None \<Rightarrow> jk_address j
                       | Some building \<Rightarrow>
                           if building = [] then jk_address j
                           else Some (fmt (jk_address j) @ u '', '' @ building))
           in case parse_rooms room_count of Inl e \<Rightarrow> Inl e | Inr r \<Rightarrow>
              (case parse_area area_str of Inl e \<Rightarrow> Inl e | Inr a \<Rightarrow>
              (case py_int_str price_s of Inl e \<Rightarrow> Inl e | Inr p \<Rightarrow>
                 Inr \<lparr>flat_id = offer_id, url = decode_url url_s, rooms = r, area = a,
                      flat_floor = 0, floors_total = 0, price = p, address = addr,
                      year_built = jk_year_built j, house_status = Some finish_date,
                      images = (if image_url \<noteq> [] then [decode_url image_url] else [])\<rparr>)))
      | _ \<Rightarrow> Inl ValueError)"

fun layout_flats :: "jk \<Rightarrow> ustr list list \<Rightarrow> exn + flat list" where
  "layout_flats j [] = Inr []"
| "layout_flats j (m # ms) =
     (case layout_flat j m of
        Inl e \<Rightarrow> Inl e
      | Inr f \<Rightarrow> (case layout_flats j ms of Inl e \<Rightarrow> Inl e | Inr fs \<Rightarrow> Inr (f # fs)))"

definition extract_flats_from_layouts :: "ustr \<Rightarrow> jk \<Rightarrow> exn + flat list" where
  "extract_flats_from_layouts html j = layout_flats j (findall layouts_pat html)"

text \<open>\<^verbatim>\<open>{f.id: f for f in layouts_flats}\<close>: the last flat of an id stays.\<close>

definition by_id :: "flat list \<Rightarrow> (ustr \<rightharpoonup> flat)" where
  "by_id fs = map_of (rev (map (\<lambda>f. (flat_id f, f)) fs))"

subsection \<open>Cards\<close>

text \<open>The pattern \<^verbatim>\<open>"cianId":(\d+)[^}]*?"parentId":(\d+)\<close> of \<^verbatim>\<open>_extract_valid_flat_ids\<close>.\<close>

definition valid_ids_pat :: "item list" where
  \<open>valid_ids_pat =
     lit (u ''"cianId":'') @ [Mark, plus is_digit, Mark, star_lazy (\<lambda>c. c \<noteq> 125)]
     @ lit (u ''"parentId":'') @ [Mark, plus is_digit, Mark]\<close>

definition extract_valid_flat_ids :: "ustr \<Rightarrow> ustr \<Rightarrow> ustr set" where
  "extract_valid_flat_ids html jid =
     set (List.map_filter
            (\<lambda>m. case m of [cian_id, parent_id] \<Rightarrow> if parent_id = jid then Some cian_id else None
                  | _ \<Rightarrow> None)
            (findall valid_ids_pat html))"

text \<open>The pattern \<^verbatim>\<open>/flat/(\d+)\<close>.\<close>

definition flat_id_pat :: "item list" where
  "flat_id_pat = lit (u ''/flat/'') @ [Mark, plus is_digit, Mark]"

definition extract_flat_url_and_id :: "card \<Rightarrow> exn + (ustr \<times> ustr)" where
  "extract_flat_url_and_id crd =
     (case (case link_flat crd of
              Inl e \<Rightarrow> Inl e
            | Inr (Some l) \<Rightarrow> Inr (Some l)
            | Inr None \<Rightarrow> link_sale crd) of
        Inl e \<Rightarrow> Inl e
      | Inr None \<Rightarrow> Inr ([], [])
      | Inr (Some (Inl e)) \<Rightarrow> Inl e
      | Inr (Some (Inr href)) \<Rightarrow>
          (let url0 = (case href of None \<Rightarrow> [] | Some h \<Rightarrow> h);
               url1 = (if startswith url0 (u ''/'') then u ''https://www.cian.ru'' @ url0 else url0)
           in Inr (url1, (case re_search flat_id_pat url1 of Some (g # gs) \<Rightarrow> g | _ \<Rightarrow> []))))"

definition get_card_text :: "card \<Rightarrow> exn + ustr" where
  "get_card_text crd =
     (case link_area crd of Inl e \<Rightarrow> Inl e | Inr (Some t) \<Rightarrow> t | Inr None \<Rightarrow> card_text crd)"

text \<open>
  The patterns \<^verbatim>\<open>([\d\s]+)\s*R\<close> and \<^verbatim>\<open>([\d\s]+)\<close> of \<^verbatim>\<open>_parse_price\<close>, where \<^verbatim>\<open>R\<close> is
  the rouble sign (U+20BD).
\<close>

definition price_pat :: "item list" where
  "price_pat = [Mark, plus (\<lambda>c. is_digit c \<or> is_space c), Mark, star is_space, Lit 8381]"

definition price_el_pat :: "item list" where
  "price_el_pat = [Mark, plus (\<lambda>c. is_digit c \<or> is_space c), Mark]"

definition str_isdigit :: "ustr \<Rightarrow> bool" where
  "str_isdigit s = (s \<noteq> [] \<and> list_all is_digit s)"

text \<open>
  The digits of a price in a text: the group of the pattern with its spaces removed,
  if that is a run of digits.
\<close>

definition price_digits :: "item list \<Rightarrow> ustr \<Rightarrow> ustr option" where
  "price_digits pat t =
     (case re_search pat t of
        Some (g # gs) \<Rightarrow>
          (let price_str = replace (u '' '') [] g
           in if str_isdigit price_str then Some price_str else None)
      | _ \<Rightarrow> None)"

definition parse_price :: "card \<Rightarrow> ustr \<Rightarrow> exn + int" where
  "parse_price crd t =
     (case price_digits price_pat (replace [160] (u '' '') t) of
        Some price_str \<Rightarrow> py_int_str price_str
      | None \<Rightarrow>
          (case main_price crd of
             Inl e \<Rightarrow> Inl e
           | Inr None \<Rightarrow> Inr 0
           | Inr (Some (Inl e)) \<Rightarrow> Inl e
           | Inr (Some (Inr price_text)) \<Rightarrow>
               (case price_digits price_el_pat (replace [160] (u '' '') price_text) of
                  Some price_str \<Rightarrow> py_int_str price_str
                | None \<Rightarrow> Inr 0)))"

text \<open>
  The patterns of \<^verbatim>\<open>_parse_card_data\<close>: \<^verbatim>\<open>(\d+[,.]?\d*)\s*\<close> followed by the two
  characters U+043C U+00B2 (square metres), and \<^verbatim>\<open>(\d+)\s*[/..]+\s*(\d+)\s*\<close> followed by
  U+044D U+0442, the class being the slash and the letters U+0438, U+0437.
\<close>

definition area_pat :: "item list" where
  "area_pat = [Mark, plus is_digit, opt (\<lambda>c. c = 44 \<or> c = 46), star is_digit, Mark,
     star is_space, Lit 1084, Lit 178]"

definition floor_pat :: "item list" where
  "floor_pat = [Mark, plus is_digit, Mark, star is_space,
     plus (\<lambda>c. c = 47 \<or> c = 1080 \<or> c = 1079), star is_space,
     Mark, plus is_digit, Mark, star is_space, Lit 1101, Lit 1090]"

definition parse_card_data :: "card \<Rightarrow> ustr \<Rightarrow> exn + (int \<times> pyfloat \<times> int \<times> int \<times> int)" where
  "parse_card_data crd t =
     (case parse_rooms t of Inl e \<Rightarrow> Inl e | Inr r \<Rightarrow>
     (case (case re_search area_pat t of
              Some (g # gs) \<Rightarrow> py_float_str (replace (u '','') (u ''.'') g)
            | _ \<Rightarrow> Inr (Fin 0)) of Inl e \<Rightarrow> Inl e | Inr a \<Rightarrow>
     (case (case re_search floor_pat t of
              Some (g1 # g2 # gs) \<Rightarrow>
                (case py_int_str g1 of Inl e \<Rightarrow> Inl e | Inr fl \<Rightarrow>
                (case py_int_str g2 of Inl e \<Rightarrow> Inl e | Inr ft \<Rightarrow> Inr (fl, ft)))
            | _ \<Rightarrow> Inr (0, 0)) of Inl e \<Rightarrow> Inl e | Inr (fl, ft) \<Rightarrow>
     (case parse_price crd t of Inl e \<Rightarrow> Inl e | Inr p \<Rightarrow> Inr (r, a, fl, ft, p)))))"

text \<open>
  \<^verbatim>\<open>_merge_with_layout\<close>. The words looked for in the text are \<^verbatim>\<open>"dom sdan"\<close> and
  \<^verbatim>\<open>"stroitsya"\<close> in Cyrillic letters.
\<close>

definition merge_with_layout ::
  "card \<Rightarrow> ustr \<Rightarrow> flat option \<Rightarrow> jk
     \<Rightarrow> exn + (ustr option \<times> ustr option \<times> ustr list \<times> int option)" where
  "merge_with_layout crd t layout j =
     (case (case address_item crd of
              Inl e \<Rightarrow> Inl e
            | Inr None \<Rightarrow> Inr None
            | Inr (Some (Inl e)) \<Rightarrow> Inl e
            | Inr (Some (Inr a)) \<Rightarrow> Inr (Some (strip a))) of
        Inl e \<Rightarrow> Inl e
      | Inr address0 \<Rightarrow>
          (let address1 = (case layout of
                             None \<Rightarrow> address0
                           | Some l \<Rightarrow> if \<not> truthy address0 then address l else address0);
               address2 = (if \<not> truthy address1 then jk_address j else address1);
               text_lower = lower t;
               status0 = (if contains [1076, 1086, 1084, 32, 1089, 1076, 1072, 1085] text_lower
                          then Some [1057, 1076, 1072, 1085]
                          else if contains [1089, 1090, 1088, 1086, 1080, 1090, 1089, 1103] text_lower
                          then Some [1057, 1090, 1088, 1086, 1080, 1090, 1089, 1103]
                          else None);
               status1 = (case layout of
                            None \<Rightarrow> status0
                          | Some l \<Rightarrow> if \<not> truthy status0 then house_status l else status0);
               status2 = (if \<not> truthy status1 then jk_status j else status1);
               imgs = (case layout of None \<Rightarrow> [] | Some l \<Rightarrow> images l);
               yb = (case layout of
                       None \<Rightarrow> jk_year_built j
                     | Some l \<Rightarrow>
                         if year_built l \<noteq> None \<and> year_built l \<noteq> Some 0
                         then year_built l else jk_year_built j)
           in Inr (address2, normalize_status status2, imgs, yb)))"

text \<open>
  \<^verbatim>\<open>_parse_flat_card\<close>: the body of the \<^verbatim>\<open>try\<close>, and the function, which returns
  \<^verbatim>\<open>None\<close> on every exception.
\<close>

definition parse_flat_card_body ::
  "card \<Rightarrow> jk \<Rightarrow> (ustr \<rightharpoonup> flat) \<Rightarrow> ustr set \<Rightarrow> exn + flat option" where
  "parse_flat_card_body crd j layouts_by_id valid_ids =
     (case extract_flat_url_and_id crd of Inl e \<Rightarrow> Inl e | Inr (url_s, fid) \<Rightarrow>
        if fid = [] \<or> (valid_ids \<noteq> {} \<and> fid \<notin> valid_ids) then Inr None
        else
     (case get_card_text crd of Inl e \<Rightarrow> Inl e | Inr title_text \<Rightarrow>
     (case parse_card_data crd title_text of Inl e \<Rightarrow> Inl e | Inr (r, a, fl, ft, p) \<Rightarrow>
        if fl_is_zero a \<or> p = 0 then Inr None
        else
     (case merge_with_layout crd title_text (layouts_by_id fid) j of
        Inl e \<Rightarrow> Inl e
      | Inr (addr, status, imgs, yb) \<Rightarrow>
          Inr (Some \<lparr>flat_id = fid, url = url_s, rooms = r, area = a, flat_floor = fl,
                     floors_total = ft, price = p, address = addr, year_built = yb,
                     house_status = status, images = imgs\<rparr>)))))"

definition parse_flat_card ::
  "card \<Rightarrow> jk \<Rightarrow> (ustr \<rightharpoonup> flat) \<Rightarrow> ustr set \<Rightarrow> flat option" where
  "parse_flat_card crd j layouts_by_id valid_ids =
     (case parse_flat_card_body crd j layouts_by_id valid_ids of
        Inl e \<Rightarrow> None
      | Inr r \<Rightarrow> r)"

text \<open>\<^verbatim>\<open>_parse_flats_page\<close>.\<close>

definition parse_flats_page ::
  "'w browser \<Rightarrow> jk \<Rightarrow> (ustr \<rightharpoonup> flat) \<Rightarrow> 'w state \<Rightarrow> (exn + flat list) \<times> 'w state" where
  "parse_flats_page br j layouts_by_id s =
     (case content br (world s) of
        Inl e \<Rightarrow> (Inl e, s)
      | Inr html \<Rightarrow>
          (let valid_ids = extract_valid_flat_ids html (jk_id j);
               s1 = say (LogValidIds (card valid_ids)) s
           in case query_link_areas br (world s) of
                Inl e \<Rightarrow> (Inl e, s1)
              | Inr cs1 \<Rightarrow>
                  (case (if cs1 = [] then query_card_components br (world s) else Inr cs1) of
                     Inl e \<Rightarrow> (Inl e, s1)
                   | Inr cards \<Rightarrow>
                       (Inr (List.map_filter
                               (\<lambda>crd. parse_flat_card crd j layouts_by_id valid_ids) cards),
                        say (LogCards (length cards)) s1))))"

subsection \<open>Pages\<close>

definition max_pages :: nat where
  "max_pages = 50"

text \<open>
  The \<^verbatim>\<open>while page_num <= max_pages\<close> loop of \<^verbatim>\<open>_parse_flats\<close>, from the page number and
  the flats collected so far.
\<close>

function crawl ::
  "'w browser \<Rightarrow> jk \<Rightarrow> (ustr \<rightharpoonup> flat) \<Rightarrow> nat \<Rightarrow> flat list \<Rightarrow> 'w state
     \<Rightarrow> (exn + flat list) \<times> 'w state" where
  "crawl br j layouts_by_id page_num flats s =
     (if page_num \<le> max_pages
      then (case parse_flats_page br j layouts_by_id (say (LogPage page_num) s) of
              (Inl e, s1) \<Rightarrow> (Inl e, s1)
            | (Inr page_flats, s1) \<Rightarrow>
                (case query_next br (world s1) of
                   Inl e \<Rightarrow> (Inl e, s1)
                 | Inr None \<Rightarrow> (Inr (flats @ page_flats), s1)
                 | Inr (Some (Inl e)) \<Rightarrow> (Inl e, s1)
                 | Inr (Some (Inr False)) \<Rightarrow> (Inr (flats @ page_flats), s1)
                 | Inr (Some (Inr True)) \<Rightarrow>
                     (case click_next br (world s1) of
                        (Some e, w2) \<Rightarrow> (Inl e, s1\<lparr>world := w2\<rparr>)
                      | (None, w2) \<Rightarrow>
                          (case wait_for_load_state br w2 of
                             (Some e, w3) \<Rightarrow> (Inl e, s1\<lparr>world := w3\<rparr>)
                           | (None, w3) \<Rightarrow>
                               crawl br j layouts_by_id (Suc page_num) (flats @ page_flats)
                                 (s1\<lparr>world := w3\<rparr>)))))
      else (Inr flats, s))"
  by pat_completeness auto
termination
  by (relation "measure (\<lambda>(br, j, layouts_by_id, page_num, flats, s). Suc max_pages - page_num)")
    auto

declare crawl.simps [simp del]

subsection \<open>Details\<close>

text \<open>
  The patterns of \<^verbatim>\<open>_enrich_flat_details\<close>, where \<^verbatim>\<open>STREET\<close> stands for the Cyrillic
  \<^verbatim>\<open>ul\.\s*Shekspira,\<close> and \<^verbatim>\<open>k\<close> for the letter U+043A:
  \<^verbatim>\<open><meta[^>]*name="description"[^>]*content="[^"]*STREET\s*(\d+k\d+)\<close>,
  \<^verbatim>\<open><title>[^<]*STREET\s*(\d+k\d+)\<close>, \<^verbatim>\<open>"house":\{"id":\d+,"name":"([^"]+)"\<close>,
  \<^verbatim>\<open>"photos":\[([^\]]+)\]\<close> and \<^verbatim>\<open>"fullUrl":\s*"([^"]+)"\<close>.
\<close>

definition street_pat :: "item list" where
  "street_pat = lit [1091, 1083, 46] @ [star is_space]
     @ lit [1064, 1077, 1082, 1089, 1087, 1080, 1088, 1072, 44]
     @ [star is_space, Mark, plus is_digit, Lit 1082, plus is_digit, Mark]"

definition meta_pat :: "item list" where
  \<open>meta_pat = lit (u ''<meta'') @ [star (\<lambda>c. c \<noteq> 62)] @ lit (u ''name="description"'')
     @ [star (\<lambda>c. c \<noteq> 62)] @ lit (u ''content="'') @ [star nq] @ street_pat\<close>

definition title_pat :: "item list" where
  "title_pat = lit (u ''<title>'') @ [star (\<lambda>c. c \<noteq> 60)] @ street_pat"

definition house_pat :: "item list" where
  \<open>house_pat = lit (u ''"house":{"id":'') @ [plus is_digit] @ lit (u '',"name":"'')
     @ [Mark, plus nq, Mark, Lit 34]\<close>

definition photos_pat :: "item list" where
  \<open>photos_pat = lit (u ''"photos":['') @ [Mark, plus (\<lambda>c. c \<noteq> 93), Mark, Lit 93]\<close>

definition full_url_pat :: "item list" where
  \<open>full_url_pat = lit (u ''"fullUrl":'') @ [star is_space, Lit 34, Mark, plus nq, Mark, Lit 34]\<close>

text \<open>The first group of a search, and of every match of a \<^verbatim>\<open>findall\<close>.\<close>

definition group1 :: "item list \<Rightarrow> ustr \<Rightarrow> ustr option" where
  "group1 pat t = (case re_search pat t of Some (g # gs) \<Rightarrow> Some g | _ \<Rightarrow> None)"

definition findall1 :: "item list \<Rightarrow> ustr \<Rightarrow> ustr list" where
  "findall1 pat t = List.map_filter (\<lambda>gs. case gs of g # r \<Rightarrow> Some g | [] \<Rightarrow> None) (findall pat t)"

text \<open>
  \<^verbatim>\<open>_enrich_flat_details\<close> changes the flat in place, so the model returns the flat as the
  call leaves it, together with the exception the call raised, if any.
\<close>

definition enrich_flat_details ::
  "'w browser \<Rightarrow> flat \<Rightarrow> jk \<Rightarrow> 'w \<Rightarrow> (exn option \<times> flat) \<times> 'w" where
  "enrich_flat_details br f j w =
     (case goto br (url f) w of
        (Some e, w1) \<Rightarrow> ((Some e, f), w1)
      | (None, w1) \<Rightarrow>
     (case wait_for_load_state br w1 of
        (Some e, w2) \<Rightarrow> ((Some e, f), w2)
      | (None, w2) \<Rightarrow>
     (case content br w2 of
        Inl e \<Rightarrow> ((Some e, f), w2)
      | Inr html \<Rightarrow>
          (let building0 = (case group1 meta_pat html of
                              Some g \<Rightarrow> Some g
                            | None \<Rightarrow> group1 title_pat html);
               building = (if \<not> truthy building0
                           then (case group1 house_pat html of
                                   Some g \<Rightarrow> parse_building_from_house_name g
                                 | None \<Rightarrow> building0)
                           else building0);
               f1 = (case building of
                       None \<Rightarrow> f
                     | Some b \<Rightarrow>
                         if b = [] then f
                         else f\<lparr>address := Some (fmt (jk_address j) @ u '', '' @ b)\<rparr>);
               f2 = (case group1 photos_pat html of
                       None \<Rightarrow> f1
                     | Some g \<Rightarrow>
                         (let urls = findall1 full_url_pat g
                          in if urls \<noteq> [] then f1\<lparr>images := map decode_url urls\<rparr> else f1))
           in ((None, f2), w2)))))"

text \<open>
  The loop \<^verbatim>\<open>for i, flat in enumerate(flats)\<close> of \<^verbatim>\<open>_parse_flats\<close> with its
  \<^verbatim>\<open>try\<close>/\<^verbatim>\<open>except Exception\<close>; \<open>n\<close> is \<^verbatim>\<open>len(flats)\<close> and \<open>i\<close> the index.
\<close>

fun enrich_all ::
  "'w browser \<Rightarrow> jk \<Rightarrow> nat \<Rightarrow> nat \<Rightarrow> flat list \<Rightarrow> 'w state \<Rightarrow> flat list \<times> 'w state" where
  "enrich_all br j n i [] s = ([], s)"
| "enrich_all br j n i (f # fs) s =
     (case enrich_flat_details br f j (world s) of
        ((r, f'), w') \<Rightarrow>
          (let ev = (case r of
                       None \<Rightarrow> LogEnriched (Suc i) n (flat_id f') (address f')
                     | Some e \<Rightarrow> LogEnrichError (Suc i) n (flat_id f') e)
           in case enrich_all br j n (Suc i) fs (say ev (s\<lparr>world := w'\<rparr>)) of
                (fs', s') \<Rightarrow> (f' # fs', s')))"

subsection \<open>The run\<close>

text \<open>The sentence of the listing page that says that there are no offers.\<close>

definition no_offers :: ustr where
  "no_offers = [1053, 1077, 1090, 32, 1087, 1086, 1076, 1093, 1086, 1076, 1103, 1097, 1080,
     1093, 32, 1086, 1073, 1098, 1103, 1074, 1083, 1077, 1085, 1080, 1081]"

text \<open>\<^verbatim>\<open>_parse_flats\<close>; \<open>flats_url\<close> is \<^verbatim>\<open>self.flats_url\<close>.\<close>

definition parse_flats ::
  "'w browser \<Rightarrow> ustr \<Rightarrow> jk \<Rightarrow> ustr \<Rightarrow> 'w state \<Rightarrow> (exn + flat list) \<times> 'w state" where
  "parse_flats br flats_url j jk_html s =
     (let s0 = say LogParsingFlats s
      in case extract_flats_from_layouts jk_html j of
           Inl e \<Rightarrow> (Inl e, s0)
         | Inr layouts_flats \<Rightarrow>
     (let layouts_by_id = by_id layouts_flats;
          s1 = say (LogLayouts (length layouts_flats)) s0
      in case goto br flats_url (world s1) of
           (Some e, w1) \<Rightarrow> (Inl e, s1\<lparr>world := w1\<rparr>)
         | (None, w1) \<Rightarrow>
     (case wait_for_load_state br w1 of
        (Some e, w2) \<Rightarrow> (Inl e, s1\<lparr>world := w2\<rparr>)
      | (None, w2) \<Rightarrow>
     (case content br w2 of
        Inl e \<Rightarrow> (Inl e, s1\<lparr>world := w2\<rparr>)
      | Inr body \<Rightarrow>
          if contains no_offers body
          then (Inr layouts_flats, say LogNoOffers (s1\<lparr>world := w2\<rparr>))
          else
     (case crawl br j layouts_by_id 1 [] (s1\<lparr>world := w2\<rparr>) of
        (Inl e, s2) \<Rightarrow> (Inl e, s2)
      | (Inr flats, s2) \<Rightarrow>
          (case enrich_all br j (length flats) 0 flats (say (LogDetail (length flats)) s2) of
             (flats', s3) \<Rightarrow> (Inr flats', say (LogTotal (length flats')) s3)))))))"

section \<open>Example data\<close>

text \<open>Concrete flats, pages and sites, on which the properties below are tried.\<close>

definition flat_a :: flat where
  "flat_a = \<lparr>flat_id = u ''7'', url = u ''x'', rooms = 1, area = to_double (456 / 10), flat_floor = 3,
     floors_total = 9, price = 5000000, address = None, year_built = None,
     house_status = None, images = []\<rparr>"

definition card_plain :: card where
  "card_plain = \<lparr>link_flat = Inr (Some (Inr (Some (u ''/sale/flat/7/'')))), link_sale = Inr None,
     link_area = Inr None, card_text = Inr (u ''1-k''), main_price = Inr None,
     address_item = Inr None\<rparr>"

definition jk_y :: jk where
  "jk_y = \<lparr>jk_id = u ''42'', jk_name = u ''Complex'', jk_url = u ''https://c/'', jk_status = None,
     jk_address = Some (u ''Y''), jk_developer = None, jk_price_min = None, jk_price_max = None,
     jk_price_per_m2_min = None, jk_price_per_m2_max = None, jk_building_class = None,
     jk_floors = None, jk_buildings_count = None, jk_building_type = None,
     jk_ceiling_height = None, jk_finishing = None, jk_parking = None, jk_year_built = None\<rparr>"

definition layout_html :: ustr where
  \<open>layout_html = u ''<script>{"roomCount":"1","offerUrl":"https://www.cian.ru/sale/flat/7/","houseName":"Street, 1k1 (510k2)","finishDate":"2025","totalArea":"45,6","priceDisplay":"5 mln","price":5000000,"offerId":7,"layoutImageUrl":"https://i/7.jpg"}</script>''\<close>

definition flat_l :: flat where
  "flat_l = \<lparr>flat_id = u ''7'', url = u ''https://www.cian.ru/sale/flat/7/'', rooms = 1,
     area = to_double (456 / 10), flat_floor = 0, floors_total = 0, price = 5000000,
     address = Some (u ''Y, 1k1''), year_built = None, house_status = Some (u ''2025''),
     images = [u ''https://i/7.jpg'']\<rparr>"

definition s0 :: "nat state" where
  "s0 = \<lparr>world = 0, logged = []\<rparr>"

definition br_none :: "nat browser" where
  "br_none = \<lparr>goto = (\<lambda>url_s w. (None, 1)), wait_for_load_state = (\<lambda>w. (None, w)),
     content = (\<lambda>w. Inr (u ''<p>'' @ no_offers @ u ''</p>'')),
     query_link_areas = (\<lambda>w. Inr []), query_card_components = (\<lambda>w. Inr []),
     query_next = (\<lambda>w. Inr None), click_next = (\<lambda>w. (None, w))\<rparr>"

text \<open>The page numbers in the log: one for every page the loop has parsed.\<close>

definition pages_logged :: "event list \<Rightarrow> nat list" where
  "pages_logged es = concat (map (\<lambda>e. case e of LogPage n \<Rightarrow> [n] | _ \<Rightarrow> []) es)"

text \<open>
  A site given by the address of its listing, its listing pages in order (each with its
  text, its cards and whether its pagination control is there and visible) and its
  detail pages by address. The browser is on a listing page, on a detail page or on the
  page it started on.
\<close>

record lpage =
  page_html :: ustr
  page_cards :: "card list"
  next_active :: bool

datatype loc = Blank | Listing nat | Detail ustr

definition site :: "ustr \<Rightarrow> lpage list \<Rightarrow> (ustr \<rightharpoonup> ustr) \<Rightarrow> loc browser" where
  "site listing_url ps details =
     \<lparr>goto = (\<lambda>url_s w. if url_s = listing_url then (None, Listing 0)
                        else if details url_s \<noteq> None then (None, Detail url_s)
                        else (Some (BrowserError 404), w)),
      wait_for_load_state = (\<lambda>w. (None, w)),
      content = (\<lambda>w. case w of
                   Listing i \<Rightarrow> if i < length ps then Inr (page_html (ps ! i))
                                else Inl (BrowserError 0)
                 | Detail d \<Rightarrow> (case details d of Some h \<Rightarrow> Inr h | None \<Rightarrow> Inl (BrowserError 0))
                 | Blank \<Rightarrow> Inr []),
      query_link_areas = (\<lambda>w. case w of
                   Listing i \<Rightarrow> if i < length ps then Inr (page_cards (ps ! i))
                                else Inl (BrowserError 0)
                 | _ \<Rightarrow> Inr []),
      query_card_components = (\<lambda>w. Inr []),
      query_next = (\<lambda>w. case w of
                   Listing i \<Rightarrow> if i < length ps \<and> next_active (ps ! i)
                                then Inr (Some (Inr True)) else Inr None
                 | _ \<Rightarrow> Inr None),
      click_next = (\<lambda>w. case w of
                   Listing i \<Rightarrow> (None, Listing (Suc i))
                 | _ \<Rightarrow> (Some (BrowserError 1), w))\<rparr>"

definition pg :: "bool \<Rightarrow> lpage" where
  "pg a = \<lparr>page_html = [], page_cards = [], next_active = a\<rparr>"

definition l0 :: "loc state" where
  "l0 = \<lparr>world = Listing 0, logged = []\<rparr>"

text \<open>
  Three flats with detail pages \<^verbatim>\<open>https://d/a\<close>, \<^verbatim>\<open>https://d/b\<close>, \<^verbatim>\<open>https://d/c\<close>: the first
  page has the building code in its title and no photos, the second does not load, the
  third has photos and no building code.
\<close>

definition fl :: "ustr \<Rightarrow> flat" where
  "fl n = flat_a\<lparr>flat_id := n, url := u ''https://d/'' @ n,
     address := Some (u ''Y''), images := [u ''https://i/0.jpg'']\<rparr>"

definition html_title :: ustr where
  "html_title = u ''<title>'' @ [1091, 1083, 46, 32, 1064, 1077, 1082, 1089, 1087, 1080, 1088, 1072, 44, 32, 49, 1082, 50]
     @ u ''</title>''"

definition html_photos :: ustr where
  \<open>html_photos = u ''<title>7</title>"photos":[{"fullUrl":"https://p/1.jpg"},{"fullUrl": "https://p/2.jpg"}]''\<close>

definition details_ac :: "ustr \<rightharpoonup> ustr" where
  "details_ac = [u ''https://d/a'' \<mapsto> html_title, u ''https://d/c'' \<mapsto> html_photos]"

text \<open>The records \<^verbatim>\<open>_parse_flats_page\<close> makes of the cards of a listing page of a site.\<close>

definition site_page_flats :: "jk \<Rightarrow> (ustr \<rightharpoonup> flat) \<Rightarrow> lpage \<Rightarrow> flat list" where
  "site_page_flats j lb p =
     List.map_filter
       (\<lambda>crd. parse_flat_card crd j lb (extract_valid_flat_ids (page_html p) (jk_id j)))
       (page_cards p)"

text \<open>
  A card of the flat 7, with the text \<^verbatim>\<open>1-komn., 45,6 m2, 3/9 et., 5 000 000 R\<close> (in
  Cyrillic letters, with the signs for square metres and roubles), the flat it gives
  when there is no layout, and a listing page with this one card.
\<close>

definition card7 :: card where
  "card7 = \<lparr>link_flat = Inr (Some (Inr (Some (u ''/sale/flat/7/'')))), link_sale = Inr None,
     link_area = Inr None,
     card_text = Inr [49, 45, 1082, 1086, 1084, 1085, 46, 44, 32, 52, 53, 44, 54, 32, 1084, 178, 44, 32, 51, 47, 57, 32, 1101, 1090, 46, 44, 32, 53, 32, 48, 48, 48, 32, 48, 48, 48, 32, 8381],
     main_price = Inr None, address_item = Inr None\<rparr>"

definition flat7 :: flat where
  "flat7 = \<lparr>flat_id = u ''7'', url = u ''https://www.cian.ru/sale/flat/7/'', rooms = 1,
     area = to_double (456 / 10), flat_floor = 3, floors_total = 9, price = 5000000,
     address = Some (u ''Y''), year_built = None, house_status = None, images = []\<rparr>"

definition pg7 :: "bool \<Rightarrow> lpage" where
  "pg7 a = \<lparr>page_html = u ''<html>'', page_cards = [card7], next_active = a\<rparr>"

section \<open>Auxiliary lemmas\<close>

subsection \<open>Doubles\<close>

lemma bit_length_0 [simp]: "bit_length 0 = 0"
  by (simp add: bit_length.simps)

lemma bit_length_1 [simp]: "bit_length 1 = 1"
  by (simp add: bit_length.simps)

lemma bit_length_numeral [simp]:
  "bit_length (numeral n) = bit_length (numeral n div 2) + 1"
  by (subst bit_length.simps) simp


lemma bit_length_nonneg: "0 \<le> bit_length n"
  by (induction n rule: bit_length.induct) (subst bit_length.simps, simp)

lemma bit_length_le: "n < 2 ^ k \<Longrightarrow> bit_length n \<le> int k"
proof (induction k arbitrary: n)
  case 0
  then show ?case by (subst bit_length.simps) simp
next
  case (Suc k)
  have "n div 2 < 2 ^ k" using Suc.prems by simp
  then have "bit_length (n div 2) \<le> int k" by (rule Suc.IH)
  then show ?case by (subst bit_length.simps) simp
qed

lemma pow2_pos: "0 < pow2 k"
  by (simp add: pow2_def)

lemma round_half_even_ge: "real_of_int j \<le> m \<Longrightarrow> j \<le> round_half_even m"
proof -
  assume "real_of_int j \<le> m"
  then have "j \<le> \<lfloor>m\<rfloor>" by (simp add: le_floor_iff)
  then show ?thesis by (auto simp: round_half_even_def Let_def)
qed

lemma round_half_even_le: "m \<le> real_of_int j \<Longrightarrow> round_half_even m \<le> j"
  unfolding round_half_even_def Let_def by (auto; linarith)

lemma to_double_nonneg:
  "0 \<le> x \<Longrightarrow> to_double x = PInf \<or> (\<exists>y. to_double x = Fin y \<and> 0 \<le> y)"
proof -
  assume x: "0 \<le> x"
  define q where "q = pow2 (max (binary_exponent \<bar>x\<bar>) (- 1022) - 52)"
  have q: "0 < q" unfolding q_def by (rule pow2_pos)
  have "real_of_int 0 \<le> \<bar>x\<bar> / q" using q by simp
  then have "0 \<le> round_half_even (\<bar>x\<bar> / q)" by (rule round_half_even_ge)
  then have "0 \<le> real_of_int (round_half_even (\<bar>x\<bar> / q)) * q" using q by simp
  then show ?thesis using x unfolding to_double_def Let_def q_def [symmetric] by auto
qed

lemma binary_exponent_le: "0 < x \<Longrightarrow> x < 2 ^ 53 \<Longrightarrow> binary_exponent x \<le> 52"
proof -
  assume x: "0 < x" "x < 2 ^ 53"
  have "\<lfloor>x\<rfloor> < 2 ^ 53" using x by (simp add: floor_less_iff)
  then have "bit_length \<lfloor>x\<rfloor> \<le> int 53" by (rule bit_length_le)
  then show ?thesis using bit_length_nonneg [of "\<lceil>1 / x\<rceil> - 1"]
    by (simp add: binary_exponent_def)
qed

lemma to_double_between:
  assumes "0 < x" "x < 2 ^ 53"
  shows "\<exists>y. to_double x = Fin y \<and> real_of_int \<lfloor>x\<rfloor> \<le> y \<and> y \<le> real_of_int \<lceil>x\<rceil>"
proof -
  define k where "k = nat (52 - max (binary_exponent \<bar>x\<bar>) (- 1022))"
  have e: "max (binary_exponent \<bar>x\<bar>) (- 1022) \<le> 52"
    using binary_exponent_le [OF assms] assms by simp
  then have q: "pow2 (max (binary_exponent \<bar>x\<bar>) (- 1022) - 52) = 1 / 2 ^ k"
    unfolding pow2_def k_def
    by (auto simp: nat_diff_distrib) 
  define r where "r = round_half_even (\<bar>x\<bar> / (1 / 2 ^ k))"
  have "real_of_int (\<lfloor>x\<rfloor> * 2 ^ k) \<le> \<bar>x\<bar> / (1 / 2 ^ k)"
    using assms by (simp add: mult_right_mono)
  then have lo: "\<lfloor>x\<rfloor> * 2 ^ k \<le> r" unfolding r_def by (rule round_half_even_ge)
  have "\<bar>x\<bar> / (1 / 2 ^ k) \<le> real_of_int (\<lceil>x\<rceil> * 2 ^ k)"
    using assms by (simp add: mult_right_mono)
  then have hi: "r \<le> \<lceil>x\<rceil> * 2 ^ k" unfolding r_def by (rule round_half_even_le)
  have lo': "real_of_int \<lfloor>x\<rfloor> \<le> real_of_int r * (1 / 2 ^ k)"
  proof -
    have "real_of_int (\<lfloor>x\<rfloor> * 2 ^ k) \<le> real_of_int r" using lo by linarith
    then show ?thesis by (simp add: field_simps)
  qed
  have hi': "real_of_int r * (1 / 2 ^ k) \<le> real_of_int \<lceil>x\<rceil>"
  proof -
    have "real_of_int r \<le> real_of_int (\<lceil>x\<rceil> * 2 ^ k)" using hi by linarith
    then show ?thesis by (simp add: field_simps)
  qed
  have "\<lceil>x\<rceil> \<le> 2 ^ 53" using assms by (simp add: ceiling_le_iff)
  then have "real_of_int \<lceil>x\<rceil> \<le> real_of_int (2 ^ 53)" by (simp only: of_int_le_iff)
  then have "real_of_int \<lceil>x\<rceil> \<le> 2 ^ 53" by simp
  moreover have "(2::real) ^ 53 < 2 ^ 1024" by simp
  ultimately have "real_of_int r * (1 / 2 ^ k) < 2 ^ 1024" using hi' by linarith
  then show ?thesis using assms lo' hi'
    unfolding to_double_def Let_def q r_def [symmetric] by auto
qed

lemma to_double_int: "0 < n \<Longrightarrow> n < 2 ^ 53 \<Longrightarrow> to_double (real_of_int n) = Fin (real_of_int n)"
  using to_double_between [of "real_of_int n"] by auto

lemmas eval_double = binary_exponent_def pow2_def round_half_even_def

lemma double_456: "to_double (456 / 10) = Fin (6417629469002957 / 140737488355328)"
  unfolding to_double_def Let_def by (simp add: eval_double)

lemma double_228: "to_double (228 / 5) = Fin (6417629469002957 / 140737488355328)"
  unfolding to_double_def Let_def by (simp add: eval_double)

subsection \<open>Evaluation\<close>

lemmas eval_strings = u_def strip_def is_space_def is_digit_def lower_def lower_cp_def
  startswith_def replace.simps re_sub_empty.simps findall.simps re_search_def lit_def

lemma by_id_Some: "by_id fs fid = Some l \<Longrightarrow> flat_id l = fid \<and> l \<in> set fs"
  unfolding by_id_def by (auto dest!: map_of_SomeD)

lemma merge_address:
  "merge_with_layout crd t layout j = Inr (a, st, im, yb) \<Longrightarrow>
     a = (let own = (case address_item crd of Inr (Some (Inr txt)) \<Rightarrow> Some (strip txt) | _ \<Rightarrow> None)
          in if truthy own then own
             else (case layout of
                     Some l \<Rightarrow> if truthy (address l) then address l else jk_address j
                   | None \<Rightarrow> jk_address j))"
  unfolding merge_with_layout_def
  by (auto simp: Let_def split: sum.splits option.splits if_splits)

lemma by_id_None: "(by_id fs i = None) = (i \<notin> flat_id ` set fs)"
  unfolding by_id_def by (simp add: map_of_eq_None_iff image_image)

lemma by_id_last: "by_id (fs @ [l]) (flat_id l) = Some l"
  unfolding by_id_def by simp

lemma card_merge:
  "parse_flat_card_body crd j lb ids = Inr (Some f) \<Longrightarrow>
     \<exists>t st im yb. merge_with_layout crd t (lb (flat_id f)) j = Inr (address f, st, im, yb)"
  unfolding parse_flat_card_body_def
  by (auto split: sum.splits prod.splits if_splits) blast+

lemma card_address:
  "parse_flat_card_body crd j lb ids = Inr (Some f) \<Longrightarrow>
     address f = (let own = (case address_item crd of Inr (Some (Inr txt)) \<Rightarrow> Some (strip txt) | _ \<Rightarrow> None)
          in if truthy own then own
             else (case lb (flat_id f) of
                     Some l \<Rightarrow> if truthy (address l) then address l else jk_address j
                   | None \<Rightarrow> jk_address j))"
proof -
  assume "parse_flat_card_body crd j lb ids = Inr (Some f)"
  from card_merge [OF this] obtain t st im yb where
    "merge_with_layout crd t (lb (flat_id f)) j = Inr (address f, st, im, yb)" by blast
  then show ?thesis by (rule merge_address)
qed

lemma parse_flat_card_Some:
  "parse_flat_card crd j lb ids = Some f \<Longrightarrow> parse_flat_card_body crd j lb ids = Inr (Some f)"
  by (auto simp: parse_flat_card_def split: sum.splits)

lemma merge_eval: "merge_with_layout card_plain [] layout jk_y =
   Inr (case layout of Some l \<Rightarrow> if truthy (address l) then address l else Some (u ''Y'') | None \<Rightarrow> Some (u ''Y''),
     normalize_status (case layout of Some l \<Rightarrow> house_status l | None \<Rightarrow> None),
     case layout of Some l \<Rightarrow> images l | None \<Rightarrow> [],
     case layout of Some l \<Rightarrow> if year_built l \<noteq> None \<and> year_built l \<noteq> Some 0 then year_built l else None | None \<Rightarrow> None)"
  by (simp add: merge_with_layout_def card_plain_def jk_y_def lower_def normalize_status_def split: option.splits)






lemmas eval_numbers = py_float_str_def py_int_str_def parse_floatnumber_def parse_exponent_def
  digitpart_ok_def digitpart_val_def digits_val_def Let_def















lemma layout_html_matches:
  "findall layouts_pat layout_html = [[u ''1'', u ''https://www.cian.ru/sale/flat/7/'', u ''Street, 1k1 (510k2)'',
     u ''2025'', u ''45,6'', u ''5000000'', u ''7'', u ''https://i/7.jpg'']]"
  by (simp add: layout_html_def layouts_pat_def eval_strings)

lemma layout_html_flats: "extract_flats_from_layouts layout_html jk_y = Inr [flat_l]"
  unfolding extract_flats_from_layouts_def layout_html_matches
  by (simp add: layout_flat_def parse_building_from_house_name_def paren_pat_def parse_rooms_def studio_def
     parse_area_def decode_url_def jk_y_def flat_l_def eval_numbers eval_strings)

lemma layout_flat_floor: "layout_flat j m = Inr f \<Longrightarrow> flat_floor f = 0 \<and> floors_total f = 0"
  unfolding layout_flat_def
  by (auto simp: Let_def split: list.splits sum.splits)

lemma layout_flats_floor:
  "layout_flats j ms = Inr fs \<Longrightarrow> \<forall>f\<in>set fs. flat_floor f = 0 \<and> floors_total f = 0"
  by (induction ms arbitrary: fs) (auto split: sum.splits dest: layout_flat_floor)

lemma parse_flats_no_offers:
  assumes "goto br flats_url (world s) = (None, w1)" "wait_for_load_state br w1 = (None, w2)"
    "content br w2 = Inr body" "contains no_offers body"
  shows "parse_flats br flats_url j html s =
     (case extract_flats_from_layouts html j of
        Inl e \<Rightarrow> (Inl e, say LogParsingFlats s)
      | Inr ls \<Rightarrow> (Inr ls, s\<lparr>world := w2,
           logged := logged s @ [LogParsingFlats, LogLayouts (length ls), LogNoOffers]\<rparr>))"
  using assms by (simp add: parse_flats_def say_def Let_def split: sum.splits)

lemma pages_logged_Nil [simp]: "pages_logged [] = []"
  by (simp add: pages_logged_def)

lemma pages_logged_Cons [simp]:
  "pages_logged (e # es) = (case e of LogPage n \<Rightarrow> [n] | _ \<Rightarrow> []) @ pages_logged es"
  by (simp add: pages_logged_def)

lemma pages_logged_append [simp]:
  "pages_logged (xs @ ys) = pages_logged xs @ pages_logged ys"
  by (simp add: pages_logged_def)

lemma crawl_done: "max_pages < p \<Longrightarrow> crawl br j lb p flats s = (Inr flats, s)"
  by (subst crawl.simps) simp

lemma parse_flats_page_state:
  "parse_flats_page br j lb s = (r, s1) \<Longrightarrow>
     world s1 = world s \<and> pages_logged (logged s1) = pages_logged (logged s)"
  by (auto simp: parse_flats_page_def say_def Let_def split: sum.splits if_splits)

lemma crawl_stop:
  assumes "p \<le> max_pages"
    and "parse_flats_page br j lb (say (LogPage p) s) = (Inr pf, s1)"
    and "query_next br (world s1) = Inr None \<or> query_next br (world s1) = Inr (Some (Inr False))"
  shows "crawl br j lb p flats s = (Inr (flats @ pf), s1)"
  using assms by (subst crawl.simps) auto

lemma crawl_next:
  assumes "p \<le> max_pages"
    and "parse_flats_page br j lb (say (LogPage p) s) = (Inr pf, s1)"
    and "query_next br (world s1) = Inr (Some (Inr True))"
    and "click_next br (world s1) = (None, w2)"
    and "wait_for_load_state br w2 = (None, w3)"
  shows "crawl br j lb p flats s = crawl br j lb (Suc p) (flats @ pf) (s1\<lparr>world := w3\<rparr>)"
  using assms by (subst crawl.simps) auto

lemma crawl_pages:
  "crawl br j lb p flats s = (r, s') \<Longrightarrow> p \<le> max_pages \<Longrightarrow>
     \<exists>n. p \<le> n \<and> n \<le> max_pages
       \<and> pages_logged (logged s') = pages_logged (logged s) @ [p..<Suc n]"
proof (induction "max_pages - p" arbitrary: p flats s)
  case 0
  then have pe: "p = max_pages" by simp
  obtain r1 s1 where pf: "parse_flats_page br j lb (say (LogPage p) s) = (r1, s1)"
    by (cases "parse_flats_page br j lb (say (LogPage p) s)")
  from parse_flats_page_state [OF pf]
  have l1: "pages_logged (logged s1) = pages_logged (logged s) @ [p]"
    by (simp add: say_def)
  have "logged s' = logged s1"
    using "0.prems"(1) pf pe
    by (subst (asm) crawl.simps)
       (auto simp: crawl_done split: sum.splits option.splits bool.splits prod.splits)
  with l1 pe show ?case by (intro exI [of _ p]) simp
next
  case (Suc k)
  then have lt: "p < max_pages" by simp
  obtain r1 s1 where pf: "parse_flats_page br j lb (say (LogPage p) s) = (r1, s1)"
    by (cases "parse_flats_page br j lb (say (LogPage p) s)")
  from parse_flats_page_state [OF pf]
  have l1: "pages_logged (logged s1) = pages_logged (logged s) @ [p]"
    by (simp add: say_def)
  consider (stop) "logged s' = logged s1"
    | (go) fl w3 where "crawl br j lb (Suc p) fl (s1\<lparr>world := w3\<rparr>) = (r, s')"
    using Suc.prems(1) pf lt
    by (subst (asm) crawl.simps)
       (auto split: sum.splits option.splits bool.splits prod.splits)
  then show ?case
  proof cases
    case stop
    with l1 lt show ?thesis by (intro exI [of _ p]) simp
  next
    case go
    have k: "k = max_pages - Suc p" using Suc.hyps(2) by simp
    have sp: "Suc p \<le> max_pages" using lt by simp
    from Suc.hyps(1) [OF k go sp]
    obtain n where n: "Suc p \<le> n" "n \<le> max_pages"
      "pages_logged (logged s') = pages_logged (logged (s1\<lparr>world := w3\<rparr>)) @ [Suc p..<Suc n]"
      by blast
    have "[p..<Suc n] = p # [Suc p..<Suc n]"
      using n(1) by (simp add: upt_conv_Cons)
    with n(3) l1 have "pages_logged (logged s') = pages_logged (logged s) @ [p..<Suc n]"
      by simp
    with n(1,2) show ?thesis by (intro exI [of _ n]) simp
  qed
qed


lemma site_page_eq:
  assumes "world s = Listing i" "i < length ps"
  shows "\<exists>s1. parse_flats_page (site lu ps d) j lb s = (Inr (site_page_flats j lb (ps ! i)), s1)
     \<and> world s1 = Listing i \<and> pages_logged (logged s1) = pages_logged (logged s)"
  using assms
  by (simp add: parse_flats_page_def site_def say_def Let_def site_page_flats_def
      List.map_filter_def)

lemma site_crawl_flats:
  assumes "world s = Listing i" "p = Suc i" "p \<le> n" "n \<le> max_pages" "n \<le> length ps"
    and "\<forall>q. p \<le> q \<and> q < n \<longrightarrow> next_active (ps ! (q - 1))"
    and "n = max_pages \<or> \<not> next_active (ps ! (n - 1))"
  shows "\<exists>s'. crawl (site lu ps d) j lb p flats s =
        (Inr (flats @ concat (map (site_page_flats j lb) (drop i (take n ps)))), s')
     \<and> pages_logged (logged s') = pages_logged (logged s) @ [p..<Suc n]"
  using assms
proof (induction "n - p" arbitrary: p i s flats)
  case 0
  then have pn: "p = n" by simp
  have il: "i < length ps" using 0 by simp
  have w: "world (say (LogPage p) s) = Listing i" using "0.prems"(1) by (simp add: say_def)
  from site_page_eq [OF w il, of lu d j lb]
  obtain s1 where pf: "parse_flats_page (site lu ps d) j lb (say (LogPage p) s)
        = (Inr (site_page_flats j lb (ps ! i)), s1)"
    "world s1 = Listing i" "pages_logged (logged s1) = pages_logged (logged s) @ [p]"
    by (auto simp: say_def)
  have pm: "p \<le> max_pages" using 0 by simp
  have "take (Suc i) ps = take i ps @ [ps ! i]"
    using il by (rule take_Suc_conv_app_nth)
  moreover have "n = Suc i" using pn "0.prems"(2) by simp
  ultimately have dr: "drop i (take n ps) = [ps ! i]"
    using il by simp
  show ?case
  proof (cases "next_active (ps ! i)")
    case False
    then have "query_next (site lu ps d) (world s1) = Inr None"
      using pf(2) by (simp add: site_def)
    from crawl_stop [OF pm pf(1) disjI1, OF this] pf(3) pn dr show ?thesis by simp
  next
    case True
    with "0.prems" pn have nm: "p = max_pages" by simp
    have q: "query_next (site lu ps d) (world s1) = Inr (Some (Inr True))"
      using pf(2) True il by (simp add: site_def)
    have c: "click_next (site lu ps d) (world s1) = (None, Listing (Suc i))"
      using pf(2) by (simp add: site_def)
    have wt: "wait_for_load_state (site lu ps d) (Listing (Suc i)) = (None, Listing (Suc i))"
      by (simp add: site_def)
    from crawl_next [OF pm pf(1) q c wt] pf(3) nm pn dr show ?thesis
      by (simp add: crawl_done)
  qed
next
  case (Suc k)
  then have lt: "p < n" by simp
  have il: "i < length ps" using Suc.prems lt by simp
  have w: "world (say (LogPage p) s) = Listing i" using Suc.prems(1) by (simp add: say_def)
  from site_page_eq [OF w il, of lu d j lb]
  obtain s1 where pf: "parse_flats_page (site lu ps d) j lb (say (LogPage p) s)
        = (Inr (site_page_flats j lb (ps ! i)), s1)"
    "world s1 = Listing i" "pages_logged (logged s1) = pages_logged (logged s) @ [p]"
    by (auto simp: say_def)
  have pm: "p \<le> max_pages" using Suc.prems lt by simp
  have "next_active (ps ! (p - 1))" using Suc.prems(6) lt by blast
  then have act: "next_active (ps ! i)" using Suc.prems(2) by simp
  have q: "query_next (site lu ps d) (world s1) = Inr (Some (Inr True))"
    using pf(2) act il by (simp add: site_def)
  have c: "click_next (site lu ps d) (world s1) = (None, Listing (Suc i))"
    using pf(2) by (simp add: site_def)
  have wt: "wait_for_load_state (site lu ps d) (Listing (Suc i)) = (None, Listing (Suc i))"
    by (simp add: site_def)
  have step: "crawl (site lu ps d) j lb p flats s =
      crawl (site lu ps d) j lb (Suc p) (flats @ site_page_flats j lb (ps ! i))
        (s1\<lparr>world := Listing (Suc i)\<rparr>)"
    by (rule crawl_next [OF pm pf(1) q c wt])
  have k: "k = n - Suc p" using Suc.hyps(2) by simp
  have h6: "\<forall>q. Suc p \<le> q \<and> q < n \<longrightarrow> next_active (ps ! (q - 1))"
    using Suc.prems(6) by auto
  have ih: "\<exists>s'. crawl (site lu ps d) j lb (Suc p) (flats @ site_page_flats j lb (ps ! i))
          (s1\<lparr>world := Listing (Suc i)\<rparr>)
        = (Inr ((flats @ site_page_flats j lb (ps ! i))
                @ concat (map (site_page_flats j lb) (drop (Suc i) (take n ps)))), s')
     \<and> pages_logged (logged s') = pages_logged (logged (s1\<lparr>world := Listing (Suc i)\<rparr>))
        @ [Suc p..<Suc n]"
    by (rule Suc.hyps(1) [OF k _ _ _ Suc.prems(4) Suc.prems(5) h6 Suc.prems(7)])
      (use Suc.prems lt in simp_all)
  have "i < length (take n ps)" using lt Suc.prems by simp
  then have dr: "drop i (take n ps) = ps ! i # drop (Suc i) (take n ps)"
    using Cons_nth_drop_Suc [of i "take n ps"] lt Suc.prems(2) by simp
  have up: "[p..<Suc n] = p # [Suc p..<Suc n]"
    using lt by (simp add: upt_conv_Cons)
  from ih step pf(3) show ?case unfolding dr up by simp
qed

lemma site_crawl:
  assumes "world s = Listing i" "p = Suc i" "p \<le> n" "n \<le> max_pages" "n \<le> length ps"
    and "\<forall>q. p \<le> q \<and> q < n \<longrightarrow> next_active (ps ! (q - 1))"
    and "n = max_pages \<or> \<not> next_active (ps ! (n - 1))"
  shows "\<exists>fl s'. crawl (site lu ps d) j lb p flats s = (Inr fl, s')
     \<and> pages_logged (logged s') = pages_logged (logged s) @ [p..<Suc n]"
  using site_crawl_flats [OF assms, of lu d j lb flats] by blast

lemma enrich_all_pages:
  "enrich_all br j n i fs s = (fs', s') \<Longrightarrow> pages_logged (logged s') = pages_logged (logged s)"
proof (induction fs arbitrary: i s fs')
  case Nil
  then show ?case by simp
next
  case (Cons f fs)
  then show ?case
    by (fastforce simp: say_def Let_def split: prod.splits option.splits)
qed

lemma parse_flats_pages:
  assumes "parse_flats br flats_url j html s = (r, s')"
  shows "\<exists>n\<le>max_pages. pages_logged (logged s') = pages_logged (logged s) @ [1..<Suc n]"
proof (cases "extract_flats_from_layouts html j")
  case (Inl e)
  with assms have "pages_logged (logged s') = pages_logged (logged s)"
    by (auto simp: parse_flats_def say_def)
  then show ?thesis by (intro exI [of _ 0]) simp
next
  case (Inr ls)
  define s1 where "s1 = say (LogLayouts (length ls)) (say LogParsingFlats s)"
  have l1: "pages_logged (logged s1) = pages_logged (logged s)"
    by (simp add: s1_def say_def)
  obtain e1 w1 where g: "goto br flats_url (world s1) = (e1, w1)" by fastforce
  obtain e2 w2 where w: "wait_for_load_state br w1 = (e2, w2)" by fastforce
  obtain r2 s2 where c: "crawl br j (by_id ls) 1 [] (s1\<lparr>world := w2\<rparr>) = (r2, s2)"
    by fastforce
  have run: "parse_flats br flats_url j html s =
     (case e1 of Some e \<Rightarrow> (Inl e, s1\<lparr>world := w1\<rparr>) | None \<Rightarrow>
      (case e2 of Some e \<Rightarrow> (Inl e, s1\<lparr>world := w2\<rparr>) | None \<Rightarrow>
      (case content br w2 of Inl e \<Rightarrow> (Inl e, s1\<lparr>world := w2\<rparr>) | Inr body \<Rightarrow>
         if contains no_offers body then (Inr ls, say LogNoOffers (s1\<lparr>world := w2\<rparr>))
         else (case r2 of Inl e \<Rightarrow> (Inl e, s2) | Inr flats \<Rightarrow>
           (case enrich_all br j (length flats) 0 flats (say (LogDetail (length flats)) s2) of
             (flats', s3) \<Rightarrow> (Inr flats', say (LogTotal (length flats')) s3))))))"
    using Inr g w c
    by (simp add: parse_flats_def Let_def s1_def split: option.splits sum.splits)
  have "pages_logged (logged s') = pages_logged (logged s)
      \<or> pages_logged (logged s') = pages_logged (logged s2)"
    using assms l1 unfolding run
    by (auto simp: say_def split: option.splits sum.splits if_splits prod.splits
        dest!: enrich_all_pages)
  then show ?thesis
  proof
    assume "pages_logged (logged s') = pages_logged (logged s)"
    then show ?thesis by (intro exI [of _ 0]) simp
  next
    assume "pages_logged (logged s') = pages_logged (logged s2)"
    with crawl_pages [OF c] l1 show ?thesis by (auto simp: max_pages_def)
  qed
qed

lemma enrich_atomic:
  "enrich_flat_details br f j w = ((Some e, f'), w') \<Longrightarrow> f' = f"
  by (auto simp: enrich_flat_details_def Let_def split: prod.splits option.splits sum.splits)

lemma enrich_fields:
  "enrich_flat_details br f j w = ((r, f'), w') \<Longrightarrow>
     f' = f\<lparr>address := address f', images := images f'\<rparr>"
  by (auto simp: enrich_flat_details_def Let_def
      split: prod.splits option.splits sum.splits if_splits)

lemma enrich_loaded:
  assumes "goto br (url f) w = (None, w1)" "wait_for_load_state br w1 = (None, w2)"
    "content br w2 = Inr html"
  shows "\<exists>f'. enrich_flat_details br f j w = ((None, f'), w2)
      \<and> (group1 meta_pat html = None \<and> group1 title_pat html = None
           \<and> group1 house_pat html = None \<longrightarrow> address f' = address f)
      \<and> (group1 photos_pat html = None \<longrightarrow> images f' = images f)"
  using assms
  by (auto simp: enrich_flat_details_def Let_def split: option.splits)

lemma enrich_all_each:
  "enrich_all br j n i fs s = (fs', s') \<Longrightarrow>
     length fs' = length fs
     \<and> (\<forall>k<length fs. \<exists>w r w'. enrich_flat_details br (fs ! k) j w = ((r, fs' ! k), w')
            \<and> (r \<noteq> None \<longrightarrow> fs' ! k = fs ! k))"
proof (induction fs arbitrary: i s fs' s')
  case Nil
  then show ?case by simp
next
  case (Cons f fs)
  obtain r f1 w1 where e: "enrich_flat_details br f j (world s) = ((r, f1), w1)"
    by (metis surj_pair)
  define ev where "ev = (case r of None \<Rightarrow> LogEnriched (Suc i) n (flat_id f1) (address f1)
                       | Some e \<Rightarrow> LogEnrichError (Suc i) n (flat_id f1) e)"
  obtain fs1 s1 where r: "enrich_all br j n (Suc i) fs (say ev (s\<lparr>world := w1\<rparr>)) = (fs1, s1)"
    by (metis surj_pair)
  from Cons.prems e r have eq: "fs' = f1 # fs1"
    by (simp add: ev_def Let_def)
  from Cons.IH [OF r] have ih: "length fs1 = length fs"
    "\<forall>k<length fs. \<exists>w r w'. enrich_flat_details br (fs ! k) j w = ((r, fs1 ! k), w')
            \<and> (r \<noteq> None \<longrightarrow> fs1 ! k = fs ! k)"
    by simp_all
  have hd: "r \<noteq> None \<longrightarrow> f1 = f" using e enrich_atomic by (cases r) auto
  show ?case
  proof (intro conjI allI impI)
    show "length fs' = length (f # fs)" using eq ih(1) by simp
  next
    fix k assume "k < length (f # fs)"
    then show "\<exists>w r w'. enrich_flat_details br ((f # fs) ! k) j w = ((r, fs' ! k), w')
            \<and> (r \<noteq> None \<longrightarrow> fs' ! k = (f # fs) ! k)"
      using e hd ih(2) eq by (cases k) auto
  qed
qed

lemma enrich_all_ids:
  "enrich_all br j n i fs s = (fs', s') \<Longrightarrow>
     map flat_id fs' = map flat_id fs \<and> map area fs' = map area fs \<and> map price fs' = map price fs"
proof (induction fs arbitrary: i s fs' s')
  case Nil
  then show ?case by simp
next
  case (Cons f fs)
  obtain r f1 w1 where e: "enrich_flat_details br f j (world s) = ((r, f1), w1)"
    by (metis surj_pair)
  define ev where "ev = (case r of None \<Rightarrow> LogEnriched (Suc i) n (flat_id f1) (address f1)
                       | Some e \<Rightarrow> LogEnrichError (Suc i) n (flat_id f1) e)"
  obtain fs1 s1 where r: "enrich_all br j n (Suc i) fs (say ev (s\<lparr>world := w1\<rparr>)) = (fs1, s1)"
    by (metis surj_pair)
  from Cons.prems e r have eq: "fs' = f1 # fs1"
    by (simp add: ev_def Let_def)
  from enrich_fields [OF e] have "flat_id f1 = flat_id f \<and> area f1 = area f \<and> price f1 = price f"
    by (metis (no_types, lifting) flat.select_convs(1,4,7) flat.surjective flat.update_convs(8,11))
  with Cons.IH [OF r] eq show ?case by simp
qed

lemma enrich_abc:
  "fst (enrich_all (site (u ''https://l/'') [] details_ac) jk_y 3 0 [fl (u ''a''), fl (u ''b''), fl (u ''c'')] l0)
     = [(fl (u ''a''))\<lparr>address := Some (u ''Y, 1'' @ [1082] @ u ''2'')\<rparr>, fl (u ''b''),
        (fl (u ''c''))\<lparr>images := [u ''https://p/1.jpg'', u ''https://p/2.jpg'']\<rparr>]"
  by (simp add: site_def details_ac_def fl_def flat_a_def jk_y_def l0_def say_def
      enrich_flat_details_def group1_def findall1_def meta_pat_def title_pat_def house_pat_def
      photos_pat_def full_url_pat_def street_pat_def html_title_def html_photos_def
      decode_url_def List.map_filter_def eval_strings)


lemma parse_flats_listing:
  assumes "extract_flats_from_layouts html j = Inr ls"
    and "goto br flats_url (world s) = (None, w1)"
    and "wait_for_load_state br w1 = (None, w2)"
    and "content br w2 = Inr body"
    and "\<not> contains no_offers body"
  shows "parse_flats br flats_url j html s =
     (case crawl br j (by_id ls) 1 []
             (s\<lparr>logged := logged s @ [LogParsingFlats, LogLayouts (length ls)], world := w2\<rparr>) of
        (Inl e, s2) \<Rightarrow> (Inl e, s2)
      | (Inr flats, s2) \<Rightarrow>
          (case enrich_all br j (length flats) 0 flats (say (LogDetail (length flats)) s2) of
             (flats', s3) \<Rightarrow> (Inr flats', say (LogTotal (length flats')) s3)))"
  using assms by (simp add: parse_flats_def say_def Let_def)




lemma enrich_ran:
  assumes "extract_flats_from_layouts page j = Inr ls"
    and "goto br flats_url (world t) = (None, v1)"
    and "wait_for_load_state br v1 = (None, v2)"
    and "content br v2 = Inr body"
    and "\<not> contains no_offers body"
    and "crawl br j (by_id ls) 1 []
           (t\<lparr>logged := logged t @ [LogParsingFlats, LogLayouts (length ls)], world := v2\<rparr>)
         = (Inr flats, t2)"
  shows "\<exists>out t3. parse_flats br flats_url j page t = (Inr out, t3)
     \<and> map flat_id out = map flat_id flats \<and> map area out = map area flats
     \<and> map price out = map price flats"
proof -
  obtain out t3 where e:
    "enrich_all br j (length flats) 0 flats (say (LogDetail (length flats)) t2) = (out, t3)"
    by (metis surj_pair)
  have p: "parse_flats br flats_url j page t = (Inr out, say (LogTotal (length out)) t3)"
    unfolding parse_flats_listing [OF assms(1-5)] assms(6) by (simp add: e)
  have i: "map flat_id out = map flat_id flats \<and> map area out = map area flats
     \<and> map price out = map price flats"
    by (rule enrich_all_ids [OF e])
  show ?thesis
    by (rule exI [of _ out], rule exI [of _ "say (LogTotal (length out)) t3"], rule conjI)
      (rule p, rule i)
qed

lemma enrich_b:
  "enrich_flat_details (site (u ''https://l/'') [] details_ac) (fl (u ''b'')) jk_y (Listing 0)
     = ((Some (BrowserError 404), fl (u ''b'')), Listing 0)"
  by (simp add: site_def details_ac_def fl_def flat_a_def enrich_flat_details_def u_def)

lemmas eval_card = parse_flat_card_def parse_flat_card_body_def extract_flat_url_and_id_def
  flat_id_pat_def get_card_text_def parse_card_data_def parse_rooms_def studio_def area_pat_def
  floor_pat_def parse_price_def price_digits_def price_pat_def price_el_pat_def str_isdigit_def
  merge_with_layout_def normalize_status_def

lemma card7_flat: "parse_flat_card card7 jk_y Map.empty {} = Some flat7"
  by (simp add: card7_def flat7_def jk_y_def eval_card eval_numbers eval_strings double_228)

lemma card7_flat_layout:
  "parse_flat_card card7 jk_y (by_id [flat_l]) {} =
     Some (flat7\<lparr>address := Some (u ''Y, 1k1''), house_status := Some (u ''2025''),
       images := [u ''https://i/7.jpg'']\<rparr>)"
  by (simp add: card7_def flat7_def flat_l_def by_id_def jk_y_def eval_card eval_numbers eval_strings
      double_228)

lemma site_run:
  assumes "extract_flats_from_layouts html j = Inr ls"
    and "1 \<le> n" "n \<le> max_pages" "n \<le> length ps"
    and "\<not> contains no_offers (page_html (ps ! 0))"
    and "\<forall>q. 1 \<le> q \<and> q < n \<longrightarrow> next_active (ps ! (q - 1))"
    and "n = max_pages \<or> \<not> next_active (ps ! (n - 1))"
  shows "\<exists>out s'. parse_flats (site lu ps d) lu j html s = (Inr out, s')
     \<and> map flat_id out
         = map flat_id (concat (map (site_page_flats j (by_id ls)) (take n ps)))"
proof -
  have l: "0 < length ps" using assms(2,4) by (cases ps) auto
  define s1 where
    "s1 = s\<lparr>logged := logged s @ [LogParsingFlats, LogLayouts (length ls)], world := Listing 0\<rparr>"
  have w: "world s1 = Listing 0" by (simp add: s1_def)
  from site_crawl_flats [OF w _ assms(2,3,4,6,7), of lu d j "by_id ls" "[]"]
  obtain s2 where c: "crawl (site lu ps d) j (by_id ls) 1 [] s1 =
      (Inr (concat (map (site_page_flats j (by_id ls)) (take n ps))), s2)"
    by auto
  have g: "goto (site lu ps d) lu (world s) = (None, Listing 0)" by (simp add: site_def)
  have wt: "wait_for_load_state (site lu ps d) (Listing 0) = (None, Listing 0)"
    by (simp add: site_def)
  have ct: "content (site lu ps d) (Listing 0) = Inr (page_html (ps ! 0))"
    using l by (simp add: site_def)
  from enrich_ran [OF assms(1) g wt ct assms(5) c [unfolded s1_def]]
  show ?thesis by blast
qed

lemma parse_flat_card_id:
  "parse_flat_card crd j lb ids = Some f \<Longrightarrow> extract_flat_url_and_id crd = Inr (url f, flat_id f)"
  by (auto simp: parse_flat_card_def parse_flat_card_body_def
      split: sum.splits prod.splits if_splits)

lemma length_site_page_flats: "length (site_page_flats j lb p) \<le> length (page_cards p)"
  by (simp add: site_page_flats_def List.map_filter_def)

lemma no_layouts: "extract_flats_from_layouts (u ''<html>'') jk_y = Inr []"
  by (simp add: extract_flats_from_layouts_def layouts_pat_def eval_strings)

lemma pg7_valid_ids: "extract_valid_flat_ids (u ''<html>'') (u ''42'') = {}"
  by (simp add: extract_valid_flat_ids_def valid_ids_pat_def List.map_filter_def eval_strings)

lemma pg7_flats: "site_page_flats jk_y Map.empty (pg7 a) = [flat7]"
  using card7_flat
  by (simp add: site_page_flats_def pg7_def pg7_valid_ids List.map_filter_def jk_y_def)

lemma pg7_flats_layout:
  "site_page_flats jk_y (by_id [flat_l]) (pg7 a) =
     [flat7\<lparr>address := Some (u ''Y, 1k1''), house_status := Some (u ''2025''),
       images := [u ''https://i/7.jpg'']\<rparr>]"
  using card7_flat_layout
  by (simp add: site_page_flats_def pg7_def pg7_valid_ids List.map_filter_def jk_y_def)

lemma pg7_no_offers: "\<not> contains no_offers (page_html (pg7 a))"
  by (simp add: pg7_def no_offers_def eval_strings)

lemma two_pages_crawl:
  "\<exists>s2. crawl (site (u ''https://l/'') [pg7 True, pg7 False] Map.empty) jk_y (by_id []) 1 []
      (l0\<lparr>logged := logged l0 @ [LogParsingFlats, LogLayouts (length ([] :: flat list))],
          world := Listing 0\<rparr>)
     = (Inr [flat7, flat7], s2)"
proof -
  have "\<exists>s'. crawl (site (u ''https://l/'') [pg7 True, pg7 False] Map.empty) jk_y Map.empty 1 []
      (l0\<lparr>logged := logged l0 @ [LogParsingFlats, LogLayouts 0], world := Listing 0\<rparr>)
     = (Inr ([] @ concat (map (site_page_flats jk_y Map.empty)
              (drop 0 (take 2 [pg7 True, pg7 False])))), s')
     \<and> pages_logged (logged s') = pages_logged (logged
         (l0\<lparr>logged := logged l0 @ [LogParsingFlats, LogLayouts 0], world := Listing 0\<rparr>))
         @ [1..<Suc 2]"
    by (rule site_crawl_flats [where i = 0])
      (auto simp add: max_pages_def pg7_def less_Suc_eq numeral_2_eq_2)
  then show ?thesis by (auto simp: pg7_flats by_id_def)
qed

lemma flat7_not_enriched:
  "fst (enrich_all (site (u ''https://l/'') ps Map.empty) jk_y n i [flat7, flat7] s)
     = [flat7, flat7]"
  by (simp add: site_def enrich_flat_details_def flat7_def say_def u_def)

section \<open>Properties\<close>

text \<open>
  C5, as the code has it. The division in \<^verbatim>\<open>price_per_m2\<close> is the division of doubles, so
  the quotient is rounded to 53 bits before \<^verbatim>\<open>int\<close> truncates it. For a flat with a price
  \<open>0 < p < 2 ^ 53\<close>, a finite area \<open>a > 0\<close> and \<open>p / a < 2 ^ 53\<close> the field is the integer part
  of the double nearest to \<open>p / a\<close>: that is \<open>\<lfloor>p / a\<rfloor>\<close> or the integer after it, and never
  more than \<open>\<lceil>p / a\<rceil>\<close> (so it is \<open>p / a\<close> when the area divides the price). The field is 0
  when the area is 0, and it is a function of the price and the area of the flat alone,
  not a field that can be set.
\<close>

theorem price_per_m2_double_floor:
  "(0 < price f \<and> price f < 2 ^ 53 \<and> area f = Fin a \<and> 0 < a \<and> real_of_int (price f) / a < 2 ^ 53
      \<longrightarrow> price_per_m2 f = py_int_of_float (to_double (real_of_int (price f) / a))
        \<and> (case price_per_m2 f of
             Inl e \<Rightarrow> False
           | Inr n \<Rightarrow> \<lfloor>real_of_int (price f) / a\<rfloor> \<le> n \<and> n \<le> \<lceil>real_of_int (price f) / a\<rceil>))
   \<and> (area f = Fin 0 \<longrightarrow> price_per_m2 f = Inr 0)
   \<and> (price f = price g \<and> area f = area g \<longrightarrow> price_per_m2 f = price_per_m2 g)"
proof -
  have 1: "price_per_m2 f = py_int_of_float (to_double (real_of_int (price f) / a))
        \<and> (case price_per_m2 f of
             Inl e \<Rightarrow> False
           | Inr n \<Rightarrow> \<lfloor>real_of_int (price f) / a\<rfloor> \<le> n \<and> n \<le> \<lceil>real_of_int (price f) / a\<rceil>)"
    if h: "0 < price f" "price f < 2 ^ 53" "area f = Fin a" "0 < a"
      "real_of_int (price f) / a < 2 ^ 53"
  proof -
    have c: "float_of_int (price f) = Inr (real_of_int (price f))"
      using to_double_int [OF h(1) h(2)] by (simp add: float_of_int_def)
    have e: "price_per_m2 f = py_int_of_float (to_double (real_of_int (price f) / a))"
      using h c by (simp add: price_per_m2_def py_div_def)
    have x: "0 < real_of_int (price f) / a" using h by simp
    from to_double_between [OF x h(5)] obtain y where
      y: "to_double (real_of_int (price f) / a) = Fin y"
        "real_of_int \<lfloor>real_of_int (price f) / a\<rfloor> \<le> y"
        "y \<le> real_of_int \<lceil>real_of_int (price f) / a\<rceil>"
      by blast
    have "0 \<le> \<lfloor>real_of_int (price f) / a\<rfloor>" using x by simp
    then have y0: "0 \<le> y" using y(2) by linarith
    have lo: "\<lfloor>real_of_int (price f) / a\<rfloor> \<le> \<lfloor>y\<rfloor>" using y(2) by (simp add: le_floor_iff)
    have hi: "\<lfloor>y\<rfloor> \<le> \<lceil>real_of_int (price f) / a\<rceil>" using y(3) by (simp add: floor_le_iff)
    show ?thesis using e y(1) y0 lo hi by simp
  qed
  have 2: "area f = Fin 0 \<longrightarrow> price_per_m2 f = Inr 0"
    by (simp add: price_per_m2_def)
  have 3: "price f = price g \<and> area f = area g \<longrightarrow> price_per_m2 f = price_per_m2 g"
    by (simp add: price_per_m2_def)
  from 1 2 3 show ?thesis by blast
qed

theorem price_per_m2_double_floor_witness:
  "price_per_m2 flat_a = Inr 109649 \<and> price_per_m2 (flat_a\<lparr>area := Fin 0\<rparr>) = Inr 0
   \<and> price_per_m2 flat_a = price_per_m2 (flat_a\<lparr>rooms := 2\<rparr>)"
proof -
  have "price_per_m2 flat_a
      = py_int_of_float (to_double (5000000 / (6417629469002957 / 140737488355328)))"
    using price_per_m2_double_floor [of flat_a "6417629469002957 / 140737488355328" flat_a]
    by (simp add: flat_a_def double_228)
  also have "\<dots> = Inr 109649"
    unfolding to_double_def Let_def by (simp add: eval_double)
  finally have "price_per_m2 flat_a = Inr 109649" .
  moreover have "price_per_m2 (flat_a\<lparr>area := Fin 0\<rparr>) = Inr 0"
    using price_per_m2_double_floor [of "flat_a\<lparr>area := Fin 0\<rparr>" 1 flat_a] by simp
  moreover have "price_per_m2 flat_a = price_per_m2 (flat_a\<lparr>rooms := 2\<rparr>)"
    using price_per_m2_double_floor [of flat_a 1 "flat_a\<lparr>rooms := 2\<rparr>"] by simp
  ultimately show ?thesis by simp
qed

text \<open>
  The claim as first stated takes the exact quotient. The flat with the price 4560000 and
  the area 45.6 has the area \<open>6417629469002957 / 2 ^ 47\<close>, the double nearest to 45.6, which
  is above 45.6: the exact quotient is below 100000 and its floor is 99999, but the
  quotient of the doubles is rounded to 100000, and that is the value of the field. (For
  the price 2110500 and the area 20.1 the double is above 20.1 too and the field is
  104999, where the numbers as they are written give 105000.)
\<close>

theorem price_per_m2_rounding_counterexample:
  "price_per_m2 (flat_a\<lparr>price := 4560000\<rparr>) = Inr 100000
   \<and> area (flat_a\<lparr>price := 4560000\<rparr>) = Fin (6417629469002957 / 140737488355328)
   \<and> \<lfloor>4560000 / (6417629469002957 / 140737488355328 :: real)\<rfloor> = 99999
   \<and> price_per_m2 (flat_a\<lparr>price := 2110500, area := to_double (201 / 10)\<rparr>) = Inr 104999
   \<and> \<lfloor>2110500 / (201 / 10 :: real)\<rfloor> = 105000"
proof -
  have a: "to_double 4560000 = Fin 4560000"
    unfolding to_double_def Let_def by (simp add: eval_double)
  have b: "py_int_of_float (to_double (4560000 / (6417629469002957 / 140737488355328)))
      = Inr 100000"
    unfolding to_double_def Let_def by (simp add: eval_double)
  have c: "to_double 2110500 = Fin 2110500"
    unfolding to_double_def Let_def by (simp add: eval_double)
  have d: "to_double (201 / 10) = Fin (2828823515942093 / 140737488355328)"
    unfolding to_double_def Let_def by (simp add: eval_double)
  have e: "py_int_of_float (to_double (2110500 / (2828823515942093 / 140737488355328)))
      = Inr 104999"
    unfolding to_double_def Let_def by (simp add: eval_double)
  have 1: "price_per_m2 (flat_a\<lparr>price := 4560000\<rparr>)
      = py_int_of_float (to_double (4560000 / (6417629469002957 / 140737488355328)))"
    by (simp add: price_per_m2_def py_div_def float_of_int_def flat_a_def double_228 a)
  have 2: "price_per_m2 (flat_a\<lparr>price := 2110500, area := to_double (201 / 10)\<rparr>)
      = py_int_of_float (to_double (2110500 / (2828823515942093 / 140737488355328)))"
    by (simp add: price_per_m2_def py_div_def float_of_int_def d c)
  have 3: "area (flat_a\<lparr>price := 4560000\<rparr>) = Fin (6417629469002957 / 140737488355328)"
    by (simp add: flat_a_def double_228)
  have 4: "\<lfloor>4560000 / (6417629469002957 / 140737488355328 :: real)\<rfloor> = 99999" by simp
  have 5: "\<lfloor>2110500 / (201 / 10 :: real)\<rfloor> = 105000" by simp
  show ?thesis unfolding 1 2 b e using 3 4 5 by blast
qed

text \<open>
  C10. \<^verbatim>\<open>parse_building_from_house_name\<close> never returns the empty string. It returns
  \<^verbatim>\<open>None\<close> exactly when the name is empty, has no comma, or nothing is left of the part
  after the first comma once the trailing group in parentheses is cut off, as for the
  name \<^verbatim>\<open>"Shekspira, (510k2)"\<close> (in Cyrillic letters); otherwise the building code it
  returns is not empty.
\<close>

theorem parse_building_never_empty:
  "parse_building_from_house_name h \<noteq> Some []
   \<and> (parse_building_from_house_name h = None \<longleftrightarrow>
        h = [] \<or> 44 \<notin> set h
        \<or> strip (re_sub_empty paren_pat (strip (tl (dropWhile (\<lambda>c. c \<noteq> 44) h)))) = [])
   \<and> parse_building_from_house_name
        [1064, 1077, 1082, 1089, 1087, 1080, 1088, 1072, 44, 32, 40, 53, 49, 48, 1082, 50, 41]
        = None"
proof -
  have "parse_building_from_house_name
        [1064, 1077, 1082, 1089, 1087, 1080, 1088, 1072, 44, 32, 40, 53, 49, 48, 1082, 50, 41]
        = None"
    by (simp add: parse_building_from_house_name_def paren_pat_def eval_strings)
  then show ?thesis
    by (simp add: parse_building_from_house_name_def Let_def)
qed

theorem parse_building_never_empty_witness:
  "parse_building_from_house_name
     [1064, 1077, 1082, 1089, 1087, 1080, 1088, 1072, 44, 32, 49, 1082, 49, 32,
      40, 53, 49, 48, 1082, 50, 41] = Some [49, 1082, 49]
   \<and> parse_building_from_house_name
       [1064, 1077, 1082, 1089, 1087, 1080, 1088, 1072, 32, 49, 1082, 49] = None"
  using parse_building_never_empty
    [of "[1064, 1077, 1082, 1089, 1087, 1080, 1088, 1072, 32, 49, 1082, 49]"]
  by (simp add: parse_building_from_house_name_def paren_pat_def eval_strings)

text \<open>
  C6. The address of a merged record follows a strict precedence: the text of the card's
  own address element (stripped) when it is not empty; otherwise the address of the
  layout candidate, when there is one and it has an address; otherwise the address of the
  development. The layout candidate is the one that the table of the layouts holds under
  the identifier of the card: the address of the record made from a card is given by
  that precedence with the entry of the table under the record's own identifier, an entry
  whose identifier is equal to it; the table has an entry for an identifier exactly when
  some layout candidate carries it, the last one if there are several. With no address
  on the card, a layout address \<^verbatim>\<open>X\<close> and a development address \<^verbatim>\<open>Y\<close> the result is \<^verbatim>\<open>X\<close>;
  without the layout address it is \<^verbatim>\<open>Y\<close>.
\<close>

theorem merge_address_precedence:
  "(merge_with_layout crd t layout j = Inr (a, st, im, yb) \<longrightarrow>
     a = (let own = (case address_item crd of Inr (Some (Inr txt)) \<Rightarrow> Some (strip txt) | _ \<Rightarrow> None)
          in if truthy own then own
             else (case layout of
                     Some l \<Rightarrow> if truthy (address l) then address l else jk_address j
                   | None \<Rightarrow> jk_address j)))
   \<and> (parse_flat_card_body crd j (by_id fs) ids = Inr (Some f) \<longrightarrow>
        address f =
          (let own = (case address_item crd of Inr (Some (Inr txt)) \<Rightarrow> Some (strip txt) | _ \<Rightarrow> None)
           in if truthy own then own
              else (case by_id fs (flat_id f) of
                      Some l \<Rightarrow> if truthy (address l) then address l else jk_address j
                    | None \<Rightarrow> jk_address j))
        \<and> (\<forall>l. by_id fs (flat_id f) = Some l \<longrightarrow> flat_id l = flat_id f \<and> l \<in> set fs))
   \<and> (by_id fs i = None) = (i \<notin> flat_id ` set fs)
   \<and> by_id (fs @ [g]) (flat_id g) = Some g"
proof -
  have 1: "merge_with_layout crd t layout j = Inr (a, st, im, yb) \<longrightarrow>
     a = (let own = (case address_item crd of Inr (Some (Inr txt)) \<Rightarrow> Some (strip txt) | _ \<Rightarrow> None)
          in if truthy own then own
             else (case layout of
                     Some l \<Rightarrow> if truthy (address l) then address l else jk_address j
                   | None \<Rightarrow> jk_address j))"
    using merge_address by blast
  have 2: "parse_flat_card_body crd j (by_id fs) ids = Inr (Some f) \<longrightarrow>
        address f =
          (let own = (case address_item crd of Inr (Some (Inr txt)) \<Rightarrow> Some (strip txt) | _ \<Rightarrow> None)
           in if truthy own then own
              else (case by_id fs (flat_id f) of
                      Some l \<Rightarrow> if truthy (address l) then address l else jk_address j
                    | None \<Rightarrow> jk_address j))
        \<and> (\<forall>l. by_id fs (flat_id f) = Some l \<longrightarrow> flat_id l = flat_id f \<and> l \<in> set fs)"
    using card_address [of crd j "by_id fs" ids f] by_id_Some [of fs "flat_id f"] by blast
  have 3: "(by_id fs i = None) = (i \<notin> flat_id ` set fs)" by (rule by_id_None)
  have 4: "by_id (fs @ [g]) (flat_id g) = Some g" by (rule by_id_last)
  show ?thesis using 1 2 3 4 by (intro conjI)
qed

theorem merge_address_precedence_witness:
  "(\<exists>st im yb. merge_with_layout card_plain [] (Some (flat_a\<lparr>address := Some (u ''X'')\<rparr>)) jk_y
        = Inr (Some (u ''X''), st, im, yb))
   \<and> (\<exists>st im yb. merge_with_layout card_plain [] (Some (flat_a\<lparr>address := None\<rparr>)) jk_y
        = Inr (Some (u ''Y''), st, im, yb))
   \<and> (\<exists>st im yb. merge_with_layout card_plain [] None jk_y = Inr (Some (u ''Y''), st, im, yb))
   \<and> (\<exists>f. parse_flat_card_body card7 jk_y (by_id [flat_l]) {} = Inr (Some f)
         \<and> address f = address flat_l \<and> address flat_l = Some (u ''Y, 1k1''))"
proof -
  obtain a st im yb where e: "merge_with_layout card_plain [] (Some (flat_a\<lparr>address := Some (u ''X'')\<rparr>)) jk_y = Inr (a, st, im, yb)"
    by (simp add: merge_eval)
  from merge_address_precedence [of card_plain "[]" "Some (flat_a\<lparr>address := Some (u ''X'')\<rparr>)" jk_y a st im yb] e
  have "a = Some (u ''X'')" by (simp add: card_plain_def u_def)
  with e have 1: "\<exists>st im yb. merge_with_layout card_plain [] (Some (flat_a\<lparr>address := Some (u ''X'')\<rparr>)) jk_y
        = Inr (Some (u ''X''), st, im, yb)" by blast
  obtain f where b: "parse_flat_card_body card7 jk_y (by_id [flat_l]) {} = Inr (Some f)"
    and i: "flat_id f = u ''7''"
    using parse_flat_card_Some [OF card7_flat_layout] by (simp add: flat7_def)
  have l: "by_id [flat_l] (u ''7'') = Some flat_l" by (simp add: by_id_def flat_l_def)
  from merge_address_precedence [of card7 "[]" None jk_y None None "[]" None "[flat_l]" "{}" f]
    b i l
  have "address f = address flat_l" by (simp add: card7_def flat_l_def u_def)
  with b have 4: "\<exists>f. parse_flat_card_body card7 jk_y (by_id [flat_l]) {} = Inr (Some f)
         \<and> address f = address flat_l \<and> address flat_l = Some (u ''Y, 1k1'')"
    by (auto simp: flat_l_def)
  show ?thesis using 1 4 by (simp add: merge_eval)
qed




text \<open>
  C7. When the body of the listing page says that there are no matching offers, the
  run returns the records of the layouts, all of them and nothing else, and does not
  fail. Nothing more happens: the browser stays on the listing page as it was loaded
  and the log gains the three lines of the way there, none of a page, of cards or of a
  detail. (The listing page is loaded after the layouts have been read, so the run gets
  there only with the list \<open>ls\<close> of their records.)
\<close>

theorem no_offers_returns_layouts:
  assumes "extract_flats_from_layouts html j = Inr ls"
    and "goto br flats_url (world s) = (None, w1)"
    and "wait_for_load_state br w1 = (None, w2)"
    and "content br w2 = Inr body"
    and "contains no_offers body"
  shows "parse_flats br flats_url j html s =
     (Inr ls, s\<lparr>world := w2,
                logged := logged s @ [LogParsingFlats, LogLayouts (length ls), LogNoOffers]\<rparr>)"
  using assms by (simp add: parse_flats_no_offers)

theorem no_offers_returns_layouts_witness:
  "parse_flats br_none (u ''https://l/'') jk_y layout_html s0 =
     (Inr [flat_l], \<lparr>world = 1, logged = [LogParsingFlats, LogLayouts 1, LogNoOffers]\<rparr>)"
proof -
  have "contains no_offers (u ''<p>'' @ no_offers @ u ''</p>'')"
    by (simp add: no_offers_def eval_strings)
  then show ?thesis
    using no_offers_returns_layouts [of layout_html jk_y "[flat_l]" br_none "u ''https://l/''"
        s0 1 1 "u ''<p>'' @ no_offers @ u ''</p>''"] layout_html_flats
    by (simp add: br_none_def s0_def)
qed

text \<open>
  C9. Every flat the layout extractor produces has floor 0 and floors_total 0; so when
  the run falls back to the records of the layouts, because the listing page says that
  there are no matching offers, every flat it returns has floor 0 and floors_total 0.
\<close>

theorem layout_flats_have_no_floor:
  "(extract_flats_from_layouts html j = Inr fs
      \<longrightarrow> (\<forall>f\<in>set fs. flat_floor f = 0 \<and> floors_total f = 0))
   \<and> (goto br flats_url (world s) = (None, w1) \<and> wait_for_load_state br w1 = (None, w2)
        \<and> content br w2 = Inr body \<and> contains no_offers body
        \<and> parse_flats br flats_url j html s = (Inr out, s')
      \<longrightarrow> (\<forall>f\<in>set out. flat_floor f = 0 \<and> floors_total f = 0))"
proof (intro conjI impI)
  assume "extract_flats_from_layouts html j = Inr fs"
  then show "\<forall>f\<in>set fs. flat_floor f = 0 \<and> floors_total f = 0"
    by (simp add: extract_flats_from_layouts_def layout_flats_floor)
next
  assume a: "goto br flats_url (world s) = (None, w1) \<and> wait_for_load_state br w1 = (None, w2)
        \<and> content br w2 = Inr body \<and> contains no_offers body
        \<and> parse_flats br flats_url j html s = (Inr out, s')"
  then have "extract_flats_from_layouts html j = Inr out"
    using parse_flats_no_offers [of br flats_url s w1 w2 body j html]
    by (auto split: sum.splits)
  then show "\<forall>f\<in>set out. flat_floor f = 0 \<and> floors_total f = 0"
    by (simp add: extract_flats_from_layouts_def layout_flats_floor)
qed

theorem layout_flats_have_no_floor_witness:
  "extract_flats_from_layouts layout_html jk_y = Inr [flat_l]
   \<and> fst (parse_flats br_none (u ''https://l/'') jk_y layout_html s0) = Inr [flat_l]
   \<and> flat_floor flat_l = 0 \<and> floors_total flat_l = 0"
proof -
  have c: "contains no_offers (u ''<p>'' @ no_offers @ u ''</p>'')"
    by (simp add: no_offers_def eval_strings)
  have run: "parse_flats br_none (u ''https://l/'') jk_y layout_html s0 =
      (Inr [flat_l], \<lparr>world = 1, logged = [LogParsingFlats, LogLayouts 1, LogNoOffers]\<rparr>)"
    using parse_flats_no_offers [of br_none "u ''https://l/''" s0 1 1
        "u ''<p>'' @ no_offers @ u ''</p>''" jk_y layout_html] c layout_html_flats
    by (simp add: br_none_def s0_def)
  show ?thesis
    using layout_flats_have_no_floor [of layout_html jk_y "[flat_l]" br_none "u ''https://l/''"
        s0 1 1 "u ''<p>'' @ no_offers @ u ''</p>''" "[flat_l]"
        "\<lparr>world = 1, logged = [LogParsingFlats, LogLayouts 1, LogNoOffers]\<rparr>"]
      layout_html_flats c run
    by (simp add: br_none_def s0_def)
qed

text \<open>
  C4. The loop over the pages always ends, and it parses at most 50 pages whatever the
  pages offer: the pages a run of the loop (and of the whole of \<^verbatim>\<open>_parse_flats\<close>) logs
  are 1 to \<open>n\<close> with \<open>n \<le> 50\<close>. It stops as soon as a parsed page has no pagination control
  or one that is not visible. On a site of 3 pages of which only the first two have an
  active control it parses the pages 1, 2, 3; on a site of 60 pages that all have an
  active control it parses the pages 1 to 50.
\<close>

theorem crawl_visits_at_most_50_pages:
  "(crawl br j lb 1 flats s = (r, s') \<longrightarrow>
      (\<exists>n. 1 \<le> n \<and> n \<le> 50
         \<and> pages_logged (logged s') = pages_logged (logged s) @ [1..<Suc n]))
   \<and> (parse_flats br flats_url j html s = (r, s') \<longrightarrow>
      (\<exists>n. n \<le> 50 \<and> pages_logged (logged s') = pages_logged (logged s) @ [1..<Suc n]))
   \<and> (p \<le> 50 \<and> parse_flats_page br j lb (say (LogPage p) s) = (Inr pf, s1)
        \<and> (query_next br (world s1) = Inr None
            \<or> query_next br (world s1) = Inr (Some (Inr False)))
      \<longrightarrow> crawl br j lb p flats s = (Inr (flats @ pf), s1))
   \<and> (length ps = 3 \<and> next_active (ps ! 0) \<and> next_active (ps ! 1) \<and> \<not> next_active (ps ! 2)
        \<and> world t = Listing 0
      \<longrightarrow> (\<exists>fl t'. crawl (site lu ps d) j lb 1 [] t = (Inr fl, t')
             \<and> pages_logged (logged t') = pages_logged (logged t) @ [1, 2, 3]))
   \<and> (length ps = 60 \<and> (\<forall>x\<in>set ps. next_active x) \<and> world t = Listing 0
      \<longrightarrow> (\<exists>fl t'. crawl (site lu ps d) j lb 1 [] t = (Inr fl, t')
             \<and> pages_logged (logged t') = pages_logged (logged t) @ [1..<51]))"
proof (intro conjI impI)
  assume "crawl br j lb 1 flats s = (r, s')"
  from crawl_pages [OF this] show "\<exists>n. 1 \<le> n \<and> n \<le> 50
         \<and> pages_logged (logged s') = pages_logged (logged s) @ [1..<Suc n]"
    by (auto simp: max_pages_def)
next
  assume "parse_flats br flats_url j html s = (r, s')"
  from parse_flats_pages [OF this] show "\<exists>n. n \<le> 50
         \<and> pages_logged (logged s') = pages_logged (logged s) @ [1..<Suc n]"
    by (auto simp: max_pages_def)
next
  assume "p \<le> 50 \<and> parse_flats_page br j lb (say (LogPage p) s) = (Inr pf, s1)
        \<and> (query_next br (world s1) = Inr None
            \<or> query_next br (world s1) = Inr (Some (Inr False)))"
  then show "crawl br j lb p flats s = (Inr (flats @ pf), s1)"
    using crawl_stop [of p br j lb s pf s1 flats] by (simp add: max_pages_def)
next
  assume a: "length ps = 3 \<and> next_active (ps ! 0) \<and> next_active (ps ! 1) \<and> \<not> next_active (ps ! 2)
        \<and> world t = Listing 0"
  then have "\<forall>q. 1 \<le> q \<and> q < 3 \<longrightarrow> next_active (ps ! (q - 1))"
    by (auto simp: less_Suc_eq numeral_3_eq_3)
  with a have "\<exists>fl t'. crawl (site lu ps d) j lb 1 [] t = (Inr fl, t')
      \<and> pages_logged (logged t') = pages_logged (logged t) @ [1..<Suc 3]"
    by (intro site_crawl [where i = 0]) (simp_all add: max_pages_def)
  moreover have "[1..<Suc 3] = [1, 2, 3]" by (simp add: upt_rec)
  ultimately show "\<exists>fl t'. crawl (site lu ps d) j lb 1 [] t = (Inr fl, t')
             \<and> pages_logged (logged t') = pages_logged (logged t) @ [1, 2, 3]"
    by simp
next
  assume a: "length ps = 60 \<and> (\<forall>x\<in>set ps. next_active x) \<and> world t = Listing 0"
  have "next_active (ps ! (q - 1))" if "1 \<le> q \<and> q < 50" for q
  proof -
    have "q - 1 < length ps" using a that by auto
    then have "ps ! (q - 1) \<in> set ps" by (rule nth_mem)
    with a show ?thesis by blast
  qed
  then have "\<forall>q. 1 \<le> q \<and> q < 50 \<longrightarrow> next_active (ps ! (q - 1))"
    by blast
  with a have "\<exists>fl t'. crawl (site lu ps d) j lb 1 [] t = (Inr fl, t')
      \<and> pages_logged (logged t') = pages_logged (logged t) @ [1..<Suc 50]"
    by (intro site_crawl [where i = 0]) (simp_all add: max_pages_def)
  then show "\<exists>fl t'. crawl (site lu ps d) j lb 1 [] t = (Inr fl, t')
             \<and> pages_logged (logged t') = pages_logged (logged t) @ [1..<51]"
    by simp
qed

theorem crawl_visits_at_most_50_pages_witness:
  "pages_logged (logged (snd (crawl (site [] [pg True, pg True, pg False] Map.empty) jk_y
       Map.empty 1 [] l0))) = [1, 2, 3]
   \<and> pages_logged (logged (snd (crawl (site [] (replicate 60 (pg True)) Map.empty) jk_y
       Map.empty 1 [] l0))) = [1..<51]"
proof -
  have "\<exists>fl t'. crawl (site [] [pg True, pg True, pg False] Map.empty) jk_y Map.empty 1 [] l0
        = (Inr fl, t') \<and> pages_logged (logged t') = pages_logged (logged l0) @ [1, 2, 3]"
    using crawl_visits_at_most_50_pages
      [where ps = "[pg True, pg True, pg False]" and t = l0 and lu = "[]" and d = Map.empty
        and j = jk_y and lb = Map.empty,
        THEN conjunct2, THEN conjunct2, THEN conjunct2, THEN conjunct1]
    by (simp add: pg_def l0_def)
  moreover
  have "\<exists>fl t'. crawl (site [] (replicate 60 (pg True)) Map.empty) jk_y Map.empty 1 [] l0
        = (Inr fl, t') \<and> pages_logged (logged t') = pages_logged (logged l0) @ [1..<51]"
    using crawl_visits_at_most_50_pages
      [where ps = "replicate 60 (pg True)" and t = l0 and lu = "[]" and d = Map.empty
        and j = jk_y and lb = Map.empty,
        THEN conjunct2, THEN conjunct2, THEN conjunct2, THEN conjunct2]
    by (simp add: pg_def l0_def)
  ultimately show ?thesis by (auto simp: l0_def)
qed

text \<open>
  C3, as the code has it. The enrichment is isolated for every record. When the call
  raises, which only the navigation to the detail page, the wait for it and the reading
  of its content can do, all before the first assignment, the record keeps all its
  values; whatever happens, only the address and the images of a record can change. A
  pattern that is missing is no failure: on a page that has loaded the call does not
  raise, the address stays when no building code is found and the images stay when no
  photo block is found, each without regard to the other. The loop never fails: it
  returns as many records as it was given, in the same order, each of them as its own
  enrichment left it, and hence the run returns a list once the pages have been
  crawled.
\<close>

theorem enrichment_isolated:
  "(enrich_flat_details br f j w = ((Some e, f'), w') \<longrightarrow> f' = f)
   \<and> (enrich_flat_details br f j w = ((r, f'), w')
      \<longrightarrow> f' = f\<lparr>address := address f', images := images f'\<rparr>)
   \<and> (goto br (url f) w = (None, w1) \<and> wait_for_load_state br w1 = (None, w2)
        \<and> content br w2 = Inr html
      \<longrightarrow> (\<exists>g. enrich_flat_details br f j w = ((None, g), w2)
             \<and> (group1 meta_pat html = None \<and> group1 title_pat html = None
                  \<and> group1 house_pat html = None \<longrightarrow> address g = address f)
             \<and> (group1 photos_pat html = None \<longrightarrow> images g = images f)))
   \<and> (enrich_all br j n i fs s = (fs', s')
      \<longrightarrow> length fs' = length fs
          \<and> (\<forall>k<length fs. \<exists>v r v'.
                 enrich_flat_details br (fs ! k) j v = ((r, fs' ! k), v')
                 \<and> (r \<noteq> None \<longrightarrow> fs' ! k = fs ! k)))
   \<and> (extract_flats_from_layouts page j = Inr ls
        \<and> goto br flats_url (world t) = (None, v1) \<and> wait_for_load_state br v1 = (None, v2)
        \<and> content br v2 = Inr body \<and> \<not> contains no_offers body
        \<and> crawl br j (by_id ls) 1 []
             (t\<lparr>logged := logged t @ [LogParsingFlats, LogLayouts (length ls)], world := v2\<rparr>)
           = (Inr flats, t2)
      \<longrightarrow> (\<exists>out t3. parse_flats br flats_url j page t = (Inr out, t3)
             \<and> map flat_id out = map flat_id flats))"
proof (intro conjI impI)
  assume "enrich_flat_details br f j w = ((Some e, f'), w')"
  then show "f' = f" by (rule enrich_atomic)
next
  assume "enrich_flat_details br f j w = ((r, f'), w')"
  then show "f' = f\<lparr>address := address f', images := images f'\<rparr>" by (rule enrich_fields)
next
  assume a: "goto br (url f) w = (None, w1) \<and> wait_for_load_state br w1 = (None, w2)
        \<and> content br w2 = Inr html"
  show "\<exists>g. enrich_flat_details br f j w = ((None, g), w2)
             \<and> (group1 meta_pat html = None \<and> group1 title_pat html = None
                  \<and> group1 house_pat html = None \<longrightarrow> address g = address f)
             \<and> (group1 photos_pat html = None \<longrightarrow> images g = images f)"
    by (rule enrich_loaded [OF a [THEN conjunct1] a [THEN conjunct2, THEN conjunct1]
          a [THEN conjunct2, THEN conjunct2]])
next
  assume e: "enrich_all br j n i fs s = (fs', s')"
  show "length fs' = length fs"
    using enrich_all_each [OF e] by (rule conjunct1)
  show "\<forall>k<length fs. \<exists>v r v'.
                 enrich_flat_details br (fs ! k) j v = ((r, fs' ! k), v')
                 \<and> (r \<noteq> None \<longrightarrow> fs' ! k = fs ! k)"
    using enrich_all_each [OF e] by (rule conjunct2)
next
  assume a: "extract_flats_from_layouts page j = Inr ls
        \<and> goto br flats_url (world t) = (None, v1) \<and> wait_for_load_state br v1 = (None, v2)
        \<and> content br v2 = Inr body \<and> \<not> contains no_offers body
        \<and> crawl br j (by_id ls) 1 []
             (t\<lparr>logged := logged t @ [LogParsingFlats, LogLayouts (length ls)], world := v2\<rparr>)
           = (Inr flats, t2)"
  have "\<exists>out t3. parse_flats br flats_url j page t = (Inr out, t3)
     \<and> map flat_id out = map flat_id flats \<and> map area out = map area flats
     \<and> map price out = map price flats"
    using a by (intro enrich_ran [of page j ls br flats_url t v1 v2 body flats t2]) simp_all
  then obtain out t3 where "parse_flats br flats_url j page t = (Inr out, t3)"
     "map flat_id out = map flat_id flats" by blast
  then show "\<exists>out t3. parse_flats br flats_url j page t = (Inr out, t3)
             \<and> map flat_id out = map flat_id flats"
    by (intro exI conjI)
qed

theorem enrichment_isolated_witness:
  "enrich_flat_details (site (u ''https://l/'') [] details_ac) (fl (u ''b'')) jk_y (Listing 0)
     = ((Some (BrowserError 404), fl (u ''b'')), Listing 0)
   \<and> fst (enrich_all (site (u ''https://l/'') [] details_ac) jk_y 3 0
            [fl (u ''a''), fl (u ''b''), fl (u ''c'')] l0)
     = [(fl (u ''a''))\<lparr>address := Some (u ''Y, 1'' @ [1082] @ u ''2'')\<rparr>, fl (u ''b''),
        (fl (u ''c''))\<lparr>images := [u ''https://p/1.jpg'', u ''https://p/2.jpg'']\<rparr>]"
proof -
  have "fl (u ''b'') = fl (u ''b'')"
    using enrichment_isolated [THEN conjunct1, of "site (u ''https://l/'') [] details_ac"
      "fl (u ''b'')" jk_y "Listing 0" "BrowserError 404" "fl (u ''b'')" "Listing 0"] enrich_b
    by (rule mp)
  with enrich_b enrich_abc show ?thesis by (intro conjI)
qed

text \<open>
  The claim as first stated counts a missing pattern among the failures after which the
  record has its values of before. On the third detail page none of the three patterns
  of the building code matches, and yet the images of the record are overwritten.
\<close>

theorem enrichment_missing_pattern_counterexample:
  "group1 meta_pat html_photos = None \<and> group1 title_pat html_photos = None
   \<and> group1 house_pat html_photos = None
   \<and> images (fl (u ''c'')) = [u ''https://i/0.jpg'']
   \<and> enrich_flat_details (site (u ''https://l/'') [] details_ac) (fl (u ''c'')) jk_y (Listing 0)
       = ((None, (fl (u ''c''))\<lparr>images := [u ''https://p/1.jpg'', u ''https://p/2.jpg'']\<rparr>),
          Detail (u ''https://d/c''))"
  by (simp add: site_def details_ac_def fl_def flat_a_def jk_y_def
      enrich_flat_details_def group1_def findall1_def meta_pat_def title_pat_def house_pat_def
      photos_pat_def full_url_pat_def street_pat_def html_title_def html_photos_def
      decode_url_def List.map_filter_def eval_strings)

text \<open>
  C2, as the code has it. A card gives at most one record, which carries the identifier
  read from the link of the card; a listing page gives no more records than it has
  cards; and on a site whose first \<open>n\<close> listing pages are the ones parsed, the identifiers
  of the final list are those of the records of the cards, page after page and card
  after card. A layout candidate with the identifier of a card is merged into the record
  of the card and adds no record (nor does a layout candidate without a card). Nothing
  removes a record of an identifier already met, so an identifier occurs in the final
  list as many times as cards with it have passed.
\<close>

theorem one_record_per_accepted_card:
  "(parse_flat_card crd j lb ids = Some f
      \<longrightarrow> extract_flat_url_and_id crd = Inr (url f, flat_id f))
   \<and> length (site_page_flats j lb lp) \<le> length (page_cards lp)
   \<and> (extract_flats_from_layouts html j = Inr ls \<and> 1 \<le> n \<and> n \<le> 50 \<and> n \<le> length ps
        \<and> \<not> contains no_offers (page_html (ps ! 0))
        \<and> (\<forall>q. 1 \<le> q \<and> q < n \<longrightarrow> next_active (ps ! (q - 1)))
        \<and> (n = 50 \<or> \<not> next_active (ps ! (n - 1)))
      \<longrightarrow> (\<exists>out s'. parse_flats (site lu ps d) lu j html s = (Inr out, s')
             \<and> map flat_id out
                 = map flat_id (concat (map (site_page_flats j (by_id ls)) (take n ps)))))"
proof (intro conjI impI)
  assume "parse_flat_card crd j lb ids = Some f"
  then show "extract_flat_url_and_id crd = Inr (url f, flat_id f)"
    by (rule parse_flat_card_id)
next
  show "length (site_page_flats j lb lp) \<le> length (page_cards lp)"
    by (rule length_site_page_flats)
next
  assume a: "extract_flats_from_layouts html j = Inr ls \<and> 1 \<le> n \<and> n \<le> 50 \<and> n \<le> length ps
        \<and> \<not> contains no_offers (page_html (ps ! 0))
        \<and> (\<forall>q. 1 \<le> q \<and> q < n \<longrightarrow> next_active (ps ! (q - 1)))
        \<and> (n = 50 \<or> \<not> next_active (ps ! (n - 1)))"
  show "\<exists>out s'. parse_flats (site lu ps d) lu j html s = (Inr out, s')
             \<and> map flat_id out
                 = map flat_id (concat (map (site_page_flats j (by_id ls)) (take n ps)))"
    using a by (intro site_run) (simp_all add: max_pages_def)
qed

theorem one_record_per_accepted_card_witness:
  "\<exists>out s'. parse_flats (site (u ''https://l/'') [pg7 False] Map.empty) (u ''https://l/'') jk_y
        layout_html l0 = (Inr out, s')
     \<and> map flat_id out = [u ''7'']"
proof -
  have "\<exists>out s'. parse_flats (site (u ''https://l/'') [pg7 False] Map.empty) (u ''https://l/'') jk_y
        layout_html l0 = (Inr out, s')
     \<and> map flat_id out
         = map flat_id (concat (map (site_page_flats jk_y (by_id [flat_l])) (take 1 [pg7 False])))"
    using one_record_per_accepted_card [THEN conjunct2, THEN conjunct2,
        of layout_html jk_y "[flat_l]" 1 "[pg7 False]" "u ''https://l/''" Map.empty l0]
      layout_html_flats pg7_no_offers [of False]
    by (simp add: pg7_def)
  then show ?thesis
    by (simp add: pg7_flats_layout flat7_def)
qed

text \<open>
  The claim as first stated lets a card met on two pages give one record. With the card
  of the flat 7 on both pages of a site, the run returns two records of the identifier 7.
\<close>

theorem two_pages_two_records_counterexample:
  "fst (parse_flats (site (u ''https://l/'') [pg7 True, pg7 False] Map.empty) (u ''https://l/'')
          jk_y (u ''<html>'') l0) = Inr [flat7, flat7]
   \<and> map flat_id [flat7, flat7] = [u ''7'', u ''7'']"
proof -
  obtain s2 where c: "crawl (site (u ''https://l/'') [pg7 True, pg7 False] Map.empty) jk_y (by_id []) 1 []
      (l0\<lparr>logged := logged l0 @ [LogParsingFlats, LogLayouts (length ([] :: flat list))],
          world := Listing 0\<rparr>)
     = (Inr [flat7, flat7], s2)"
    using two_pages_crawl by blast
  have g: "goto (site (u ''https://l/'') [pg7 True, pg7 False] Map.empty) (u ''https://l/'') (world l0)
      = (None, Listing 0)" by (simp add: site_def)
  have wt: "wait_for_load_state (site (u ''https://l/'') [pg7 True, pg7 False] Map.empty) (Listing 0)
      = (None, Listing 0)"
    by (simp add: site_def)
  have ct: "content (site (u ''https://l/'') [pg7 True, pg7 False] Map.empty) (Listing 0)
      = Inr (page_html (pg7 True))"
    by (simp add: site_def)
  have "fst (parse_flats (site (u ''https://l/'') [pg7 True, pg7 False] Map.empty) (u ''https://l/'')
          jk_y (u ''<html>'') l0) = Inr [flat7, flat7]"
    unfolding parse_flats_listing [OF no_layouts g wt ct pg7_no_offers] c
    using flat7_not_enriched [of "[pg7 True, pg7 False]" "length [flat7, flat7]" 0
        "say (LogDetail (length [flat7, flat7])) s2"]
    by (simp add: split_beta)
  then show ?thesis by (simp add: flat7_def)
qed

end
